theory Spec2Isabelle
  imports Main "HOL-Library.AList" "HOL-Library.Multiset"
begin

section \<open>Tables\<close>

text \<open>
  A cell of a pandas table. The program never computes with the numbers it carries, so a
  number is kept as its printed text. \<open>NaN\<close> is the missing value.
\<close>

datatype cell = NaN | Boolean bool | Number string | Text string | Stamp nat nat nat

text \<open>
  A DataFrame, column by column as pandas stores it: the row labels, and the columns in
  order, each a name with one cell per row.
\<close>

record frame =
  index_name :: "string option"
  index :: "cell list"
  cols :: "(string \<times> cell list) list"

text \<open>
  Every exception the two modules can let escape. \<open>ConfigurationError\<close> is the
  \<open>ValueError\<close> of the validation block of \<open>download_nasa_power_data\<close>.
\<close>

datatype issue =
  MissingColumn | NoParameters | BadTemporalResolution | BadSpatialResolution | BadCommunity

datatype exn =
  ConfigurationError issue
  | PoolSizeError int
  | DateParseError cell
  | FolderError string
  | TemplateError string
  | KeyError string
  | ReadError string

definition columns :: "frame \<Rightarrow> string list" where
  "columns df = map fst (cols df)"

definition empty_frame :: "frame \<Rightarrow> bool" where
  \<comment> \<open>\<open>df.empty\<close>: one of the two axes has length 0.\<close>
  "empty_frame df = (index df = [] \<or> cols df = [])"

definition getitem :: "frame \<Rightarrow> string \<Rightarrow> exn + cell list" where
  \<comment> \<open>\<open>df[name]\<close>\<close>
  "getitem df name = (case map_of (cols df) name of None \<Rightarrow> Inl (KeyError name) | Some vs \<Rightarrow> Inr vs)"

definition setitem :: "frame \<Rightarrow> string \<Rightarrow> cell list \<Rightarrow> frame" where
  \<comment> \<open>\<open>df[name] = values\<close>: an existing column is overwritten where it stands, a new one
      is added last.\<close>
  "setitem df name vs = df\<lparr>cols := AList.update name vs (cols df)\<rparr>"

definition keep :: "bool list \<Rightarrow> 'a list \<Rightarrow> 'a list" where
  "keep sel xs = map snd (filter fst (zip sel xs))"

definition getitem_mask :: "frame \<Rightarrow> bool list \<Rightarrow> frame" where
  \<comment> \<open>\<open>df[mask]\<close>: the rows at which the mask is true.\<close>
  "getitem_mask df sel =
     df\<lparr>index := keep sel (index df), cols := map (\<lambda>(n, vs). (n, keep sel vs)) (cols df)\<rparr>"

definition drop_columns :: "frame \<Rightarrow> string list \<Rightarrow> exn + frame" where
  \<comment> \<open>\<open>df.drop(columns=names)\<close>\<close>
  "drop_columns df names =
     (case filter (\<lambda>n. n \<notin> set (columns df)) names of
        [] \<Rightarrow> Inr (df\<lparr>cols := filter (\<lambda>(n, vs). n \<notin> set names) (cols df)\<rparr>)
      | n # _ \<Rightarrow> Inl (KeyError n))"

section \<open>load\_data.py\<close>

definition last3 :: "string \<Rightarrow> string" where
  \<comment> \<open>the slice \<open>s[-3:]\<close>: the whole string when it has fewer than three characters\<close>
  "last3 s = drop (length s - 3) s"

definition str_slice_last3 :: "cell \<Rightarrow> cell" where
  \<comment> \<open>one element of \<open>series.str[-3:]\<close>; the column is read with \<open>dtype=str\<close>, so its
      cells are text or missing\<close>
  "str_slice_last3 c = (case c of Text s \<Rightarrow> Text (last3 s) | _ \<Rightarrow> NaN)"

definition load_centroid_data :: "(string \<Rightarrow> exn + frame) \<Rightarrow> string \<Rightarrow> string \<Rightarrow> exn + frame" where
  \<comment> \<open>the first argument is \<open>pd.read_csv(path, dtype={'CVEGEO': str})\<close>\<close>
  "load_centroid_data reader path state =
     (case reader path of
        Inl e \<Rightarrow> Inl e
      | Inr df \<Rightarrow>
          (case getitem df ''CVEGEO'' of
             Inl e \<Rightarrow> Inl e
           | Inr geo \<Rightarrow>
               (let df1 = setitem df ''edo'' (map str_slice_last3 geo) in
                case getitem df1 ''edo'' of
                  Inl e \<Rightarrow> Inl e
                | Inr edo \<Rightarrow>
                    drop_columns (getitem_mask df1 (map (\<lambda>c. c = Text state) edo)) [''edo''])))"

definition state_code_is :: "string \<Rightarrow> cell \<Rightarrow> bool" where
  \<comment> \<open>the row's CVEGEO value is a text whose last three characters are the state code\<close>
  "state_code_is state c = (case c of Text s \<Rightarrow> last3 s = state | _ \<Rightarrow> False)"

definition centroid_csv :: frame where
  "centroid_csv =
     \<lparr>index_name = None,
      index = [Number ''0'', Number ''1'', Number ''2''],
      cols = [(''CVEGEO'', [Text ''0100131'', Text ''31'', NaN]),
              (''edo'', [Text ''x'', Text ''y'', Text ''z'']),
              (''lat'', [Number ''21.9'', Number ''20.1'', Number ''19.4''])]\<rparr>"

section \<open>climex.py: the data of a download\<close>

text \<open>
  A parsed JSON document. \<open>JObj\<close> lists the entries of a Python dict in insertion order,
  so its keys are distinct; a number is kept as its text.
\<close>

datatype json =
  JNull | JBool bool | JNum string | JStr string | JArr "json list" | JObj "(string \<times> json) list"

text \<open>
  The dict \<open>row_info\<close> that follows a request from the planner to the results, and a row of
  the results table (\<open>row_info\<close> with the three keys added when the result is collected).
\<close>

record row_info =
  info_index :: cell
  info_latitude :: cell
  info_longitude :: cell
  info_start_date :: "string option"
  info_end_date :: "string option"
  info_identifier :: cell
  info_filename :: string

record outcome = row_info +
  success :: bool
  error :: "string option"
  downloaded_at :: string

type_synonym job = "string \<times> string \<times> row_info"

text \<open>
  What is on disk under a path: a CSV file that \<open>pd.read_csv\<close> parses to these columns, or
  a file at which it raises.
\<close>

datatype disk_file = Csv "(string \<times> cell list) list" | Unreadable string

text \<open>
  The part of the world the program changes: the files, the folders it created, the URLs
  it requested in the order the requests left, the messages it printed for files it could
  not read back, and the largest number of workers that were busy at once.
\<close>

record world =
  files :: "string \<Rightarrow> disk_file option"
  folders :: "string list"
  requested :: "string list"
  diagnostics :: "(string \<times> string) list"
  peak_workers :: nat

text \<open>
  The behaviour of the network, the clock and the libraries, which the program cannot
  choose: \<open>http_json\<close> is \<open>requests.get(url, verify=False, timeout=30).json()\<close> with the
  message of the exception when it raises; \<open>irregular_frame\<close> is \<open>pd.DataFrame\<close> on a
  payload that is not a dict of dicts of scalars; \<open>parse_ymd\<close> is one label under
  \<open>pd.to_datetime(..., format='%Y%m%d')\<close>; \<open>compact_date\<close> is
  \<open>pd.to_datetime(v).strftime('%Y%m%d')\<close>; \<open>write_error\<close> and \<open>makedirs_error\<close> are the
  failures of \<open>to_csv\<close> and \<open>os.makedirs\<close>; \<open>braced_url\<close> is \<open>str.format\<close> on a template
  into which a parameter name brought braces of its own; \<open>clock\<close> is \<open>time.strftime\<close> when
  the i-th result is collected.
\<close>

record env =
  http_json :: "string \<Rightarrow> string + json"
  irregular_frame :: "json \<Rightarrow> string + frame"
  parse_ymd :: "cell \<Rightarrow> cell option"
  compact_date :: "cell \<Rightarrow> string option"
  write_error :: "string \<Rightarrow> string option"
  makedirs_error :: "string \<Rightarrow> string option"
  braced_url :: "string \<Rightarrow> string list \<Rightarrow> string option"
  clock :: "nat \<Rightarrow> string"

section \<open>climex.py: download\_function\<close>

fun substring :: "string \<Rightarrow> string \<Rightarrow> bool" where
  "substring k [] = (k = [])"
| "substring k (c # s) = (take (length k) (c # s) = k \<or> substring k s)"

definition contains :: "json \<Rightarrow> string \<Rightarrow> string + bool" where
  \<comment> \<open>\<open>key in value\<close>: a key of a dict, an element of a list, a substring of a string;
      a \<open>TypeError\<close> on a number, a boolean or null\<close>
  "contains v k =
     (case v of
        JObj kvs \<Rightarrow> Inr (k \<in> set (map fst kvs))
      | JArr xs \<Rightarrow> Inr (JStr k \<in> set xs)
      | JStr s \<Rightarrow> Inr (substring k s)
      | _ \<Rightarrow> Inl ''TypeError: argument is not iterable'')"

definition subscript :: "json \<Rightarrow> string \<Rightarrow> string + json" where
  \<comment> \<open>\<open>value[key]\<close> with a string key\<close>
  "subscript v k =
     (case v of
        JObj kvs \<Rightarrow> (case map_of kvs k of None \<Rightarrow> Inl (''KeyError: '' @ k) | Some x \<Rightarrow> Inr x)
      | _ \<Rightarrow> Inl ''TypeError: indices must be integers'')"

definition has_parameters :: "json \<Rightarrow> string + bool" where
  \<comment> \<open>line 18: \<open>'properties' in response and 'parameter' in response['properties']\<close>\<close>
  "has_parameters response =
     (case contains response ''properties'' of
        Inl m \<Rightarrow> Inl m
      | Inr False \<Rightarrow> Inr False
      | Inr True \<Rightarrow>
          (case subscript response ''properties'' of
             Inl m \<Rightarrow> Inl m
           | Inr props \<Rightarrow> contains props ''parameter''))"

definition climate_params :: "json \<Rightarrow> string + json" where
  \<comment> \<open>line 19: \<open>response['properties']['parameter']\<close>\<close>
  "climate_params response =
     (case subscript response ''properties'' of
        Inl m \<Rightarrow> Inl m
      | Inr props \<Rightarrow> subscript props ''parameter'')"

fun scalar_cell :: "json \<Rightarrow> cell option" where
  "scalar_cell JNull = Some NaN"
| "scalar_cell (JBool b) = Some (Boolean b)"
| "scalar_cell (JNum s) = Some (Number s)"
| "scalar_cell (JStr s) = Some (Text s)"
| "scalar_cell (JArr xs) = None"
| "scalar_cell (JObj kvs) = None"

definition series_of :: "json \<Rightarrow> (string \<times> cell) list option" where
  \<comment> \<open>one variable of the payload: its value per period key, when it is a dict of scalars\<close>
  "series_of v =
     (case v of
        JObj kvs \<Rightarrow> those (map (\<lambda>(k, x). map_option (Pair k) (scalar_cell x)) kvs)
      | _ \<Rightarrow> None)"

definition union_keys :: "string list list \<Rightarrow> string list" where
  \<comment> \<open>the union of the key lists, each key where it first appears\<close>
  "union_keys kss = fold (\<lambda>k acc. if k \<in> set acc then acc else acc @ [k]) (concat kss) []"

definition frame_of_series :: "(string \<times> (string \<times> cell) list) list \<Rightarrow> frame" where
  \<comment> \<open>\<open>pd.DataFrame\<close> on a dict of dicts: a column per variable, a row per period key,
      NaN where a variable has no value for a key\<close>
  "frame_of_series series =
     (let keys = union_keys (map (\<lambda>(name, kvs). map fst kvs) series) in
      \<lparr>index_name = None,
       index = map Text keys,
       cols = map (\<lambda>(name, kvs).
                (name, map (\<lambda>k. case map_of kvs k of None \<Rightarrow> NaN | Some c \<Rightarrow> c) keys)) series\<rparr>)"

definition DataFrame :: "env \<Rightarrow> json \<Rightarrow> string + frame" where
  \<comment> \<open>line 22: \<open>pd.DataFrame(climate_params)\<close>\<close>
  "DataFrame env payload =
     (case payload of
        JObj vars \<Rightarrow>
          (case those (map (\<lambda>(name, v). map_option (Pair name) (series_of v)) vars) of
             Some series \<Rightarrow> Inr (frame_of_series series)
           | None \<Rightarrow> irregular_frame env payload)
      | _ \<Rightarrow> irregular_frame env payload)"

definition broadcast :: "frame \<Rightarrow> string \<Rightarrow> cell \<Rightarrow> frame" where
  \<comment> \<open>\<open>df[name] = scalar\<close>: the scalar in every row\<close>
  "broadcast df name c = setitem df name (replicate (length (index df)) c)"

definition add_date_or_period :: "env \<Rightarrow> frame \<Rightarrow> frame" where
  \<comment> \<open>lines 31-35: the parsed labels as column date, or, when \<open>pd.to_datetime\<close> raises on one
      of them, the labels themselves as column period\<close>
  "add_date_or_period env df =
     (if index_name df = None \<and> length (index df) > 0 then
        (case those (map (parse_ymd env) (index df)) of
           Some dates \<Rightarrow> setitem df ''date'' dates
         | None \<Rightarrow> setitem df ''period'' (index df))
      else df)"

definition select_columns :: "frame \<Rightarrow> string list \<Rightarrow> string + frame" where
  \<comment> \<open>\<open>df[names]\<close>: the named columns in the order of the list\<close>
  "select_columns df names =
     (case those (map (\<lambda>n. map_option (Pair n) (map_of (cols df) n)) names) of
        None \<Rightarrow> Inl ''KeyError: not in index''
      | Some cs \<Rightarrow> Inr (df\<lparr>cols := cs\<rparr>))"

definition reorder :: "frame \<Rightarrow> string + frame" where
  \<comment> \<open>lines 38-45\<close>
  "reorder df =
     (let base_cols = [''identifier'', ''latitude'', ''longitude'']
            @ (if ''date'' \<in> set (columns df) then [''date''] else [])
            @ (if ''period'' \<in> set (columns df) then [''period''] else []);
          other_cols = filter (\<lambda>col. col \<notin> set base_cols) (columns df)
      in select_columns df (base_cols @ other_cols))"

definition to_csv :: "env \<Rightarrow> frame \<Rightarrow> string \<Rightarrow> world \<Rightarrow> (string + unit) \<times> world" where
  \<comment> \<open>line 48: \<open>df.to_csv(filepath, index=False)\<close>; the row labels are not written\<close>
  "to_csv env df filepath w =
     (case write_error env filepath of
        Some m \<Rightarrow> (Inl m, w)
      | None \<Rightarrow> (Inr (), w\<lparr>files := (files w)(filepath \<mapsto> Csv (cols df))\<rparr>))"

definition save_climate :: "env \<Rightarrow> frame \<Rightarrow> string \<Rightarrow> row_info \<Rightarrow> world \<Rightarrow> (string + unit) \<times> world" where
  \<comment> \<open>lines 24-48, for the table built from the payload\<close>
  "save_climate env df_climate filepath info w =
     (if \<not> empty_frame df_climate then
        (let df1 = broadcast df_climate ''latitude'' (info_latitude info);
             df2 = broadcast df1 ''longitude'' (info_longitude info);
             df3 = broadcast df2 ''identifier'' (info_identifier info);
             df4 = add_date_or_period env df3
         in case reorder df4 of
              Inl m \<Rightarrow> (Inl m, w)
            | Inr df5 \<Rightarrow> to_csv env df5 filepath w)
      else (Inr (), w))"

definition respond :: "env \<Rightarrow> job \<Rightarrow> world \<Rightarrow> (string + unit) \<times> world" where
  \<comment> \<open>lines 15-48 once the request has left: \<open>Inl\<close> the message of the exception raised\<close>
  "respond env collection w1 =
     (case collection of (request, filepath, info) \<Rightarrow>
        (case http_json env request of
           Inl m \<Rightarrow> (Inl m, w1)
         | Inr response \<Rightarrow>
             (case has_parameters response of
                Inl m \<Rightarrow> (Inl m, w1)
              | Inr False \<Rightarrow> (Inr (), w1)
              | Inr True \<Rightarrow>
                  (case climate_params response of
                     Inl m \<Rightarrow> (Inl m, w1)
                   | Inr payload \<Rightarrow>
                       (case DataFrame env payload of
                          Inl m \<Rightarrow> (Inl m, w1)
                        | Inr df_climate \<Rightarrow> save_climate env df_climate filepath info w1)))))"

definition attempt :: "env \<Rightarrow> job \<Rightarrow> world \<Rightarrow> (string + unit) \<times> world" where
  \<comment> \<open>the body of the \<open>try\<close>, lines 15-48: the request leaves, then the rest\<close>
  "attempt env collection w =
     (case collection of (request, filepath, info) \<Rightarrow>
        respond env collection (w\<lparr>requested := requested w @ [request]\<rparr>))"

definition download_function :: "env \<Rightarrow> job \<Rightarrow> world \<Rightarrow> (row_info \<times> bool \<times> string option) \<times> world" where
  \<comment> \<open>lines 11-53: \<open>return row_info, True, None\<close>, or in the handler
      \<open>return row_info, False, str(e)\<close>\<close>
  "download_function env collection w =
     (case collection of (request, filepath, info) \<Rightarrow>
        (case attempt env collection w of
           (Inr u, w') \<Rightarrow> ((info, True, None), w')
         | (Inl m, w') \<Rightarrow> ((info, False, Some m), w')))"

text \<open>The names the worker gives to the columns it adds, and the column made of the labels.\<close>

definition reserved_names :: "string list" where
  "reserved_names = [''identifier'', ''latitude'', ''longitude'', ''date'', ''period'']"

definition date_or_period :: "env \<Rightarrow> cell list \<Rightarrow> string \<times> cell list" where
  \<comment> \<open>column date with the parsed labels when every label parses, otherwise column period
      with the labels as they are\<close>
  "date_or_period env labels =
     (case those (map (parse_ymd env) labels) of
        Some dates \<Rightarrow> (''date'', dates)
      | None \<Rightarrow> (''period'', labels))"

section \<open>climex.py: download\_nasa\_power\_data\<close>

record options =
  lat_col :: string
  lon_col :: string
  start_date :: string
  end_date :: string
  parameters :: "string list"
  temporal_resolution :: string
  spatial_resolution :: string
  community :: string
  processes :: int
  output_folder :: string
  start_col :: "string option"
  end_col :: "string option"
  id_col :: "string option"
  return_consolidated :: bool

text \<open>What the call returns: the table of results, or the consolidated climate table.\<close>

datatype table = Results "outcome list" | Climate frame

fun decimal :: "nat \<Rightarrow> string" where
  "decimal n =
     (if n < 10 then [''0123456789'' ! n] else decimal (n div 10) @ [''0123456789'' ! (n mod 10)])"

declare decimal.simps [simp del]

definition pad :: "nat \<Rightarrow> nat \<Rightarrow> string" where
  "pad width n = replicate (width - length (decimal n)) (CHR ''0'') @ decimal n"

fun py_str :: "cell \<Rightarrow> string" where
  "py_str NaN = ''nan''"
| "py_str (Boolean b) = (if b then ''True'' else ''False'')"
| "py_str (Number s) = s"
| "py_str (Text s) = s"
| "py_str (Stamp y m d) = pad 4 y @ ''-'' @ pad 2 m @ ''-'' @ pad 2 d @ '' 00:00:00''"

fun join :: "string \<Rightarrow> string list \<Rightarrow> string" where
  "join sep [] = []"
| "join sep [x] = x"
| "join sep (x # y # ys) = x @ sep @ join sep (y # ys)"

definition path_join :: "string \<Rightarrow> string \<Rightarrow> string" where
  \<comment> \<open>\<open>os.path.join\<close> of two components (POSIX)\<close>
  "path_join a b =
     (if b \<noteq> [] \<and> hd b = CHR ''/'' then b
      else if a = [] \<or> last a = CHR ''/'' then a @ b
      else a @ ''/'' @ b)"

definition validate :: "frame \<Rightarrow> options \<Rightarrow> exn option" where
  \<comment> \<open>lines 117-135, the \<open>raise ValueError\<close> that is reached first\<close>
  "validate df opts =
     (if lat_col opts \<notin> set (columns df) \<or> lon_col opts \<notin> set (columns df)
        then Some (ConfigurationError MissingColumn)
      else if parameters opts = [] then Some (ConfigurationError NoParameters)
      else if temporal_resolution opts \<notin> set [''daily'', ''monthly'', ''climatology'']
        then Some (ConfigurationError BadTemporalResolution)
      else if spatial_resolution opts \<notin> set [''point'', ''regional'']
        then Some (ConfigurationError BadSpatialResolution)
      else if community opts \<notin> set [''RE'', ''AG'', ''SB'']
        then Some (ConfigurationError BadCommunity)
      else None)"

definition capped_processes :: "int \<Rightarrow> int" where
  \<comment> \<open>line 123: \<open>processes = min(processes, 5)\<close>\<close>
  "capped_processes n = min n 5"

definition makedirs :: "env \<Rightarrow> string \<Rightarrow> world \<Rightarrow> (exn + unit) \<times> world" where
  \<comment> \<open>line 138: \<open>os.makedirs(output_folder, exist_ok=True)\<close>\<close>
  "makedirs env path w =
     (case makedirs_error env path of
        Some m \<Rightarrow> (Inl (FolderError m), w)
      | None \<Rightarrow> (Inr (), if path \<in> set (folders w) then w else w\<lparr>folders := folders w @ [path]\<rparr>))"

definition request_template :: "options \<Rightarrow> string" where
  \<comment> \<open>lines 141-156: the template once resolution, parameters and community are filled in\<close>
  "request_template opts =
     (if temporal_resolution opts = ''climatology'' then
        ''https://power.larc.nasa.gov/api/temporal/climatology/'' @ spatial_resolution opts
          @ ''?parameters='' @ join '','' (parameters opts) @ ''&community='' @ community opts
          @ ''&longitude={longitude}&latitude={latitude}&format=JSON''
      else
        ''https://power.larc.nasa.gov/api/temporal/'' @ temporal_resolution opts @ ''/''
          @ spatial_resolution opts
          @ ''?parameters='' @ join '','' (parameters opts) @ ''&community='' @ community opts
          @ ''&longitude={longitude}&latitude={latitude}&start={start_date}&end={end_date}&format=JSON'')"

definition format_request ::
  "env \<Rightarrow> options \<Rightarrow> string \<Rightarrow> string \<Rightarrow> string \<Rightarrow> string \<Rightarrow> exn + string" where
  \<comment> \<open>lines 185-197: \<open>request_template.format(...)\<close>. Only the joined parameter names can
      bring braces beyond the four fields into the template; without them the fields are
      replaced by the values\<close>
  "format_request env opts latitude longitude start end' =
     (let params_str = join '','' (parameters opts) in
      if CHR ''{'' \<in> set params_str \<or> CHR ''}'' \<in> set params_str then
        (case braced_url env (request_template opts) [latitude, longitude, start, end'] of
           None \<Rightarrow> Inl (TemplateError (request_template opts))
         | Some url \<Rightarrow> Inr url)
      else if temporal_resolution opts = ''climatology'' then
        Inr (''https://power.larc.nasa.gov/api/temporal/climatology/'' @ spatial_resolution opts
          @ ''?parameters='' @ params_str @ ''&community='' @ community opts
          @ ''&longitude='' @ longitude @ ''&latitude='' @ latitude @ ''&format=JSON'')
      else
        Inr (''https://power.larc.nasa.gov/api/temporal/'' @ temporal_resolution opts @ ''/''
          @ spatial_resolution opts
          @ ''?parameters='' @ params_str @ ''&community='' @ community opts
          @ ''&longitude='' @ longitude @ ''&latitude='' @ latitude
          @ ''&start='' @ start @ ''&end='' @ end' @ ''&format=JSON''))"

definition iterrows :: "frame \<Rightarrow> (cell \<times> (string \<times> cell) list) list" where
  \<comment> \<open>\<open>df.iterrows()\<close>: each label with its row, the cells as the row yields them; a
      DataFrame is rectangular, so every column has a cell at every position\<close>
  "iterrows df =
     map (\<lambda>(i, label).
            (label, map (\<lambda>(n, vs). (n, case drop i vs of [] \<Rightarrow> NaN | c # _ \<Rightarrow> c)) (cols df)))
         (enumerate 0 (index df))"

definition row_get :: "(string \<times> cell) list \<Rightarrow> string \<Rightarrow> exn + cell" where
  \<comment> \<open>\<open>row[name]\<close>\<close>
  "row_get row name = (case map_of row name of None \<Rightarrow> Inl (KeyError name) | Some c \<Rightarrow> Inr c)"

definition configured :: "string option \<Rightarrow> frame \<Rightarrow> string option" where
  \<comment> \<open>\<open>col and col in df.columns\<close>: the column when it is given, not empty, and in the table\<close>
  "configured col df =
     (case col of
        None \<Rightarrow> None
      | Some c \<Rightarrow> if c \<noteq> [] \<and> c \<in> set (columns df) then Some c else None)"

definition resolve_date ::
  "env \<Rightarrow> frame \<Rightarrow> (string \<times> cell) list \<Rightarrow> string option \<Rightarrow> string \<Rightarrow> exn + string" where
  \<comment> \<open>lines 174-182\<close>
  "resolve_date env df row col default_date =
     (case configured col df of
        None \<Rightarrow> Inr default_date
      | Some c \<Rightarrow>
          (case row_get row c of
             Inl e \<Rightarrow> Inl e
           | Inr v \<Rightarrow>
               (case compact_date env v of
                  None \<Rightarrow> Inl (DateParseError v)
                | Some d \<Rightarrow> Inr d)))"

definition resolve_identifier ::
  "frame \<Rightarrow> (string \<times> cell) list \<Rightarrow> string option \<Rightarrow> cell \<Rightarrow> exn + cell" where
  \<comment> \<open>line 201\<close>
  "resolve_identifier df row col idx =
     (case configured col df of
        None \<Rightarrow> Inr (Text (''idx_'' @ py_str idx))
      | Some c \<Rightarrow> row_get row c)"

definition plan_row :: "env \<Rightarrow> frame \<Rightarrow> options \<Rightarrow> cell \<times> (string \<times> cell) list \<Rightarrow> exn + job" where
  \<comment> \<open>lines 170-217, the body of the loop\<close>
  "plan_row env df opts r =
     (case r of (idx, row) \<Rightarrow>
      case row_get row (lat_col opts) of Inl e \<Rightarrow> Inl e | Inr latitude \<Rightarrow>
      case row_get row (lon_col opts) of Inl e \<Rightarrow> Inl e | Inr longitude \<Rightarrow>
      case resolve_date env df row (start_col opts) (start_date opts) of Inl e \<Rightarrow> Inl e | Inr start \<Rightarrow>
      case resolve_date env df row (end_col opts) (end_date opts) of Inl e \<Rightarrow> Inl e | Inr end' \<Rightarrow>
      case format_request env opts (py_str latitude) (py_str longitude) start end' of
        Inl e \<Rightarrow> Inl e | Inr request_url \<Rightarrow>
      case resolve_identifier df row (id_col opts) idx of Inl e \<Rightarrow> Inl e | Inr identifier \<Rightarrow>
        (let filename = py_str identifier @ ''.csv'';
             filepath = path_join (output_folder opts) filename;
             climatology = (temporal_resolution opts = ''climatology'')
         in Inr (request_url, filepath,
              \<lparr>info_index = idx, info_latitude = latitude, info_longitude = longitude,
               info_start_date = (if climatology then None else Some start),
               info_end_date = (if climatology then None else Some end'),
               info_identifier = identifier, info_filename = filename\<rparr>)))"

fun plan_rows :: "env \<Rightarrow> frame \<Rightarrow> options \<Rightarrow> (cell \<times> (string \<times> cell) list) list \<Rightarrow> exn + job list" where
  "plan_rows env df opts [] = Inr []"
| "plan_rows env df opts (r # rs) =
     (case plan_row env df opts r of
        Inl e \<Rightarrow> Inl e
      | Inr j \<Rightarrow>
          (case plan_rows env df opts rs of
             Inl e \<Rightarrow> Inl e
           | Inr js \<Rightarrow> Inr (j # js)))"

definition Pool :: "int \<Rightarrow> exn + nat" where
  \<comment> \<open>\<open>multiprocessing.Pool(processes)\<close>: a \<open>ValueError\<close> below one process\<close>
  "Pool n = (if n < 1 then Inl (PoolSizeError n) else Inr (nat n))"

text \<open>
  The pool of lines 223-224. A schedule is the order of the events. \<open>Dispatch\<close> is a free
  worker taking the next job, in the order they were planned, and sending its request;
  \<open>Complete i\<close> is the busy worker number \<open>i\<close> (the one busy longest is 0) getting its
  answer, writing its file and returning its result, which \<open>imap_unordered\<close> yields at
  once. An event that cannot happen (no free worker, no job left, no such busy worker) is
  passed over. When the schedule ends, the busy workers finish in turn and the jobs left
  are run one at a time.
\<close>

datatype event = Dispatch | Complete nat

definition dispatch :: "job \<Rightarrow> nat \<Rightarrow> world \<Rightarrow> world" where
  \<comment> \<open>a worker starts on the job while \<open>busy\<close> others are at work: its request leaves\<close>
  "dispatch collection busy w =
     (case collection of (request, filepath, info) \<Rightarrow>
        w\<lparr>requested := requested w @ [request],
          peak_workers := max (peak_workers w) (Suc busy)\<rparr>)"

definition complete :: "env \<Rightarrow> job \<Rightarrow> world \<Rightarrow> (row_info \<times> bool \<times> string option) \<times> world" where
  \<comment> \<open>the worker's \<open>download_function\<close> from the answer to its \<open>return\<close>\<close>
  "complete env collection w =
     (case collection of (request, filepath, info) \<Rightarrow>
        (case respond env collection w of
           (Inr u, w') \<Rightarrow> ((info, True, None), w')
         | (Inl m, w') \<Rightarrow> ((info, False, Some m), w')))"

fun finish_all :: "env \<Rightarrow> job list \<Rightarrow> world \<Rightarrow> (row_info \<times> bool \<times> string option) list \<times> world" where
  "finish_all env [] w = ([], w)"
| "finish_all env (j # js) w =
     (case complete env j w of
        (r, w1) \<Rightarrow> (case finish_all env js w1 of (rs, w2) \<Rightarrow> (r # rs, w2)))"

fun one_by_one :: "env \<Rightarrow> job list \<Rightarrow> world \<Rightarrow> (row_info \<times> bool \<times> string option) list \<times> world" where
  "one_by_one env [] w = ([], w)"
| "one_by_one env (j # js) w =
     (case complete env j (dispatch j 0 w) of
        (r, w1) \<Rightarrow> (case one_by_one env js w1 of (rs, w2) \<Rightarrow> (r # rs, w2)))"

fun imap_unordered ::
  "env \<Rightarrow> nat \<Rightarrow> event list \<Rightarrow> job list \<Rightarrow> job list \<Rightarrow> world
     \<Rightarrow> (row_info \<times> bool \<times> string option) list \<times> world" where
  "imap_unordered env pool [] pending running w =
     (case finish_all env running w of
        (rs, w1) \<Rightarrow>
          if pool = 0 then (rs, w1)
          else (case one_by_one env pending w1 of (rs', w2) \<Rightarrow> (rs @ rs', w2)))"
| "imap_unordered env pool (Dispatch # sched) pending running w =
     (case pending of
        [] \<Rightarrow> imap_unordered env pool sched pending running w
      | j # js \<Rightarrow>
          if length running < pool then
            imap_unordered env pool sched js (running @ [j]) (dispatch j (length running) w)
          else imap_unordered env pool sched pending running w)"
| "imap_unordered env pool (Complete i # sched) pending running w =
     (if i < length running then
        (case complete env (running ! i) w of
           (r, w1) \<Rightarrow>
             (case imap_unordered env pool sched pending (take i running @ drop (Suc i) running) w1 of
                (rs, w2) \<Rightarrow> (r # rs, w2)))
      else imap_unordered env pool sched pending running w)"

definition collect_result :: "env \<Rightarrow> nat \<times> row_info \<times> bool \<times> string option \<Rightarrow> outcome" where
  \<comment> \<open>lines 230-233\<close>
  "collect_result env r =
     (case r of (i, info, ok, err) \<Rightarrow>
        \<lparr>info_index = info_index info, info_latitude = info_latitude info,
         info_longitude = info_longitude info, info_start_date = info_start_date info,
         info_end_date = info_end_date info, info_identifier = info_identifier info,
         info_filename = info_filename info,
         success = ok, error = err, downloaded_at = clock env i\<rparr>)"

definition run_pool :: "env \<Rightarrow> nat \<Rightarrow> event list \<Rightarrow> job list \<Rightarrow> world \<Rightarrow> outcome list \<times> world" where
  \<comment> \<open>lines 223-234: the pool of \<open>pool\<close> workers, no worker busy at first\<close>
  "run_pool env pool sched requests w =
     (case imap_unordered env pool sched requests [] w of
        (results, w') \<Rightarrow> (map (collect_result env) (enumerate 1 results), w'))"

definition verdict :: "env \<Rightarrow> world \<Rightarrow> job \<Rightarrow> row_info \<times> bool \<times> string option" where
  \<comment> \<open>what \<open>download_function\<close> returns for a job\<close>
  "verdict env w j = fst (download_function env j w)"

definition success_column :: "outcome list \<Rightarrow> exn + bool list" where
  \<comment> \<open>\<open>results_df['success']\<close>: the table built from an empty list of results has no
      columns\<close>
  "success_column download_results =
     (if download_results = [] then Inl (KeyError ''success'')
      else Inr (map success download_results))"

definition range_index :: "nat \<Rightarrow> cell list" where
  "range_index n = map (\<lambda>i. Number (decimal i)) [0..<n]"

definition read_csv :: "world \<Rightarrow> string \<Rightarrow> string + frame" where
  \<comment> \<open>\<open>pd.read_csv(filepath)\<close>\<close>
  "read_csv w filepath =
     (case files w filepath of
        None \<Rightarrow> Inl ''FileNotFoundError''
      | Some (Unreadable m) \<Rightarrow> Inl m
      | Some (Csv cs) \<Rightarrow>
          Inr \<lparr>index_name = None,
               index = range_index (case cs of [] \<Rightarrow> 0 | (n, vs) # _ \<Rightarrow> length vs),
               cols = cs\<rparr>)"

definition concat_frames :: "frame list \<Rightarrow> frame" where
  \<comment> \<open>\<open>pd.concat(all_data, ignore_index=True)\<close>: the rows of the tables one after the other,
      under the union of their columns\<close>
  "concat_frames all_data =
     (let names = union_keys (map columns all_data) in
      \<lparr>index_name = None,
       index = range_index (sum_list (map (\<lambda>df. length (index df)) all_data)),
       cols = map (\<lambda>n. (n, concat (map (\<lambda>df. case map_of (cols df) n of
                                  None \<Rightarrow> replicate (length (index df)) NaN
                                | Some vs \<Rightarrow> vs) all_data))) names\<rparr>)"

fun read_back :: "world \<Rightarrow> string \<Rightarrow> outcome list \<Rightarrow> frame list \<times> (string \<times> string) list" where
  \<comment> \<open>lines 262-273: the tables read, and the messages printed\<close>
  "read_back w folder [] = ([], [])"
| "read_back w folder (row # rows) =
     (case read_back w folder rows of (all_data, printed) \<Rightarrow>
        (case read_csv w (path_join folder (info_filename row)) of
           Inr df_climate \<Rightarrow>
             (if \<not> empty_frame df_climate then (df_climate # all_data, printed)
              else (all_data, printed))
         | Inl m \<Rightarrow> (all_data, (info_filename row, m) # printed)))"

definition consolidate_csv_data :: "outcome list \<Rightarrow> string \<Rightarrow> world \<Rightarrow> frame \<times> world" where
  \<comment> \<open>lines 257-281\<close>
  "consolidate_csv_data results_df folder w =
     (case read_back w folder (filter success results_df) of
        (all_data, printed) \<Rightarrow>
          (if all_data \<noteq> [] then concat_frames all_data
           else \<lparr>index_name = None, index = [], cols = []\<rparr>,
           w\<lparr>diagnostics := diagnostics w @ printed\<rparr>))"

text \<open>What the reading back of the files amounts to, row by row.\<close>

definition readable_tables :: "world \<Rightarrow> string \<Rightarrow> outcome list \<Rightarrow> frame list" where
  \<comment> \<open>the tables of the rows whose file is read and is not empty, in the order of the rows\<close>
  "readable_tables w folder rows =
     concat (map (\<lambda>row. case read_csv w (path_join folder (info_filename row)) of
                          Inr df \<Rightarrow> if empty_frame df then [] else [df]
                        | Inl m \<Rightarrow> []) rows)"

definition read_failures :: "world \<Rightarrow> string \<Rightarrow> outcome list \<Rightarrow> (string \<times> string) list" where
  \<comment> \<open>a message for each row whose file is missing or cannot be read, and for no other\<close>
  "read_failures w folder rows =
     concat (map (\<lambda>row. case read_csv w (path_join folder (info_filename row)) of
                          Inr df \<Rightarrow> []
                        | Inl m \<Rightarrow> [(info_filename row, m)]) rows)"

definition reduce_results :: "outcome list \<Rightarrow> options \<Rightarrow> world \<Rightarrow> (exn + table) \<times> world" where
  \<comment> \<open>lines 237-255, from the results collected\<close>
  "reduce_results download_results opts w =
     (case success_column download_results of
        Inl e \<Rightarrow> (Inl e, w)
      | Inr oks \<Rightarrow>
          if return_consolidated opts \<and> True \<in> set oks then
            (case consolidate_csv_data download_results (output_folder opts) w of
               (consolidated_data, w') \<Rightarrow> (Inr (Climate consolidated_data), w'))
          else (Inr (Results download_results), w))"

definition collect_outcomes ::
  "env \<Rightarrow> event list \<Rightarrow> frame \<Rightarrow> options \<Rightarrow> world \<Rightarrow> (exn + job list \<times> outcome list) \<times> world" where
  \<comment> \<open>lines 117-234: the requests planned and the results collected for them\<close>
  "collect_outcomes env sched df opts w =
     (case validate df opts of
        Some e \<Rightarrow> (Inl e, w)
      | None \<Rightarrow>
     (case makedirs env (output_folder opts) w of
        (Inl e, w1) \<Rightarrow> (Inl e, w1)
      | (Inr u, w1) \<Rightarrow>
     (case plan_rows env df opts (iterrows df) of
        Inl e \<Rightarrow> (Inl e, w1)
      | Inr requests \<Rightarrow>
     (case Pool (capped_processes (processes opts)) of
        Inl e \<Rightarrow> (Inl e, w1)
      | Inr pool \<Rightarrow>
     (case run_pool env pool sched requests w1 of
        (download_results, w2) \<Rightarrow> (Inr (requests, download_results), w2))))))"

definition download_nasa_power_data ::
  "env \<Rightarrow> event list \<Rightarrow> frame \<Rightarrow> options \<Rightarrow> world \<Rightarrow> (exn + table) \<times> world" where
  \<comment> \<open>lines 55-255\<close>
  "download_nasa_power_data env sched df opts w =
     (case collect_outcomes env sched df opts w of
        (Inl e, w1) \<Rightarrow> (Inl e, w1)
      | (Inr (requests, download_results), w2) \<Rightarrow> reduce_results download_results opts w2)"

section \<open>A small run\<close>

text \<open>
  Two locations, the first answered with two days of one variable, the second timing out;
  and four short requests that are answered with a complete payload, a document without
  data, a document whose \<open>properties\<close> is null, and a payload whose only variable is named
  \<open>date\<close>.
\<close>

definition demo_locations :: frame where
  "demo_locations =
     \<lparr>index_name = None,
      index = [Number ''0'', Number ''1''],
      cols = [(''latitude'', [Number ''21.9'', Number ''20.1'']),
              (''longitude'', [Number ''-102.3'', Number ''-99.0'']),
              (''since'', [Text ''2015-01-01'', Text ''soon''])]\<rparr>"

definition demo_options :: options where
  "demo_options =
     \<lparr>lat_col = ''latitude'', lon_col = ''longitude'',
      start_date = ''20150101'', end_date = ''20150102'',
      parameters = [''T2M''],
      temporal_resolution = ''daily'', spatial_resolution = ''point'', community = ''RE'',
      processes = 12, output_folder = ''out'',
      start_col = None, end_col = None, id_col = None,
      return_consolidated = False\<rparr>"

definition demo_payload :: json where
  "demo_payload =
     JObj [(''T2M'', JObj [(''20150101'', JNum ''12.5''), (''20150102'', JNum ''13.1'')])]"

definition demo_response :: json where
  "demo_response = JObj [(''properties'', JObj [(''parameter'', demo_payload)])]"

definition demo_env :: env where
  "demo_env =
     \<lparr>http_json = (\<lambda>url.
        if url = ''u1'' \<or> substring ''latitude=21.9'' url then Inr demo_response
        else if url = ''u2'' then Inr (JObj [(''messages'', JArr [JStr ''no data''])])
        else if url = ''u3'' then Inr (JObj [(''properties'', JNull)])
        else if url = ''u4'' then
          Inr (JObj [(''properties'', JObj [(''parameter'',
                 JObj [(''date'', JObj [(''ANN'', JNum ''1.5'')])])])])
        else Inl ''ReadTimeout''),
      irregular_frame = (\<lambda>payload. Inl ''ValueError: DataFrame constructor not properly called''),
      parse_ymd = (\<lambda>c.
        if c = Text ''20150101'' then Some (Stamp 2015 1 1)
        else if c = Text ''20150102'' then Some (Stamp 2015 1 2)
        else None),
      compact_date = (\<lambda>c. if c = Text ''2015-01-01'' then Some ''20150101'' else None),
      write_error = (\<lambda>filepath. None),
      makedirs_error = (\<lambda>path. None),
      braced_url = (\<lambda>template values. None),
      clock = (\<lambda>i. ''2015-03-05 12:00:00'')\<rparr>"

definition demo_world :: world where
  "demo_world =
     \<lparr>files = (\<lambda>path. None), folders = [], requested = [], diagnostics = [], peak_workers = 0\<rparr>"

definition demo_info :: row_info where
  "demo_info =
     \<lparr>info_index = Number ''0'', info_latitude = Number ''21.9'', info_longitude = Number ''-102.3'',
      info_start_date = Some ''20150101'', info_end_date = Some ''20150102'',
      info_identifier = Text ''idx_0'', info_filename = ''idx_0.csv''\<rparr>"

definition demo_requests :: "job list" where
  "demo_requests =
     [(''https://power.larc.nasa.gov/api/temporal/daily/point?parameters=T2M&community=RE&longitude=-102.3&latitude=21.9&start=20150101&end=20150102&format=JSON'',
       ''out/idx_0.csv'', demo_info),
      (''https://power.larc.nasa.gov/api/temporal/daily/point?parameters=T2M&community=RE&longitude=-99.0&latitude=20.1&start=20150101&end=20150102&format=JSON'',
       ''out/idx_1.csv'',
       \<lparr>info_index = Number ''1'', info_latitude = Number ''20.1'', info_longitude = Number ''-99.0'',
        info_start_date = Some ''20150101'', info_end_date = Some ''20150102'',
        info_identifier = Text ''idx_1'', info_filename = ''idx_1.csv''\<rparr>)]"

text \<open>Six locations, one more than the pool may hold.\<close>

definition demo_crowd :: frame where
  "demo_crowd =
     \<lparr>index_name = None,
      index = [Number ''0'', Number ''1'', Number ''2'', Number ''3'', Number ''4'', Number ''5''],
      cols = [(''latitude'', [Number ''21.9'', Number ''20.1'', Number ''19.4'', Number ''25.7'',
                               Number ''20.7'', Number ''17.1'']),
              (''longitude'', [Number ''-102.3'', Number ''-99.0'', Number ''-99.1'', Number ''-100.3'',
                                Number ''-103.3'', Number ''-96.7''])]\<rparr>"

text \<open>
  A folder with the file of one download, a file with a header and no rows, and no third
  file.
\<close>

definition demo_result :: "string \<Rightarrow> outcome" where
  "demo_result name =
     \<lparr>info_index = Number ''0'', info_latitude = Number ''21.9'', info_longitude = Number ''-102.3'',
      info_start_date = Some ''20150101'', info_end_date = Some ''20150102'',
      info_identifier = Text ''x'', info_filename = name,
      success = True, error = None, downloaded_at = ''2015-03-05 12:00:00''\<rparr>"

definition demo_disk :: world where
  "demo_disk =
     \<lparr>files = (\<lambda>path.
        if path = ''out/a.csv'' then
          Some (Csv [(''date'', [Text ''2015-01-01'', Text ''2015-01-02'']),
                     (''T2M'', [Number ''12.5'', Number ''13.1''])])
        else if path = ''out/b.csv'' then Some (Csv [(''T2M'', [])])
        else None),
      folders = [''out''], requested = [], diagnostics = [], peak_workers = 0\<rparr>"

section \<open>Properties of load\_data.py\<close>

lemma map_of_update_same: "map_of (AList.update k v al) k = Some v"
  by (simp add: update_conv')

lemma fst_masked: "fst \<circ> (\<lambda>(n, vs). (n, f vs)) = fst"
  by auto

lemma filter_masked:
  "filter (\<lambda>(n, vs). P n) (map (\<lambda>(n, vs). (n, f vs)) al) = map (\<lambda>(n, vs). (n, f vs)) (filter (\<lambda>(n, vs). P n) al)"
  by (induction al) auto

lemma filter_update_same:
  "filter (\<lambda>(n, vs). n \<noteq> k) (AList.update k v al) = filter (\<lambda>(n, vs). n \<noteq> k) al"
  by (induction al) auto

lemma mask_of_slices:
  "map ((\<lambda>c. c = Text state) \<circ> str_slice_last3) geo = map (state_code_is state) geo"
  by (induction geo) (auto simp: str_slice_last3_def state_code_is_def split: cell.splits)

lemma load_centroid_data_result:
  assumes "reader path = Inr df" and "map_of (cols df) ''CVEGEO'' = Some geo"
  shows "load_centroid_data reader path state =
     Inr (df\<lparr>index := keep (map (state_code_is state) geo) (index df),
             cols := map (\<lambda>(n, vs). (n, keep (map (state_code_is state) geo) vs))
                       (filter (\<lambda>(n, vs). n \<noteq> ''edo'') (cols df))\<rparr>)"
proof -
  let ?df1 = "setitem df ''edo'' (map str_slice_last3 geo)"
  let ?mask = "map (state_code_is state) geo"
  have edo: "getitem ?df1 ''edo'' = Inr (map str_slice_last3 geo)"
    by (simp add: getitem_def setitem_def map_of_update_same)
  have present: "''edo'' \<in> set (columns (getitem_mask ?df1 ?mask))"
    by (simp add: columns_def getitem_mask_def setitem_def fst_masked dom_update)
  have "drop_columns (getitem_mask ?df1 ?mask) [''edo''] =
      Inr ((getitem_mask ?df1 ?mask)\<lparr>cols := filter (\<lambda>(n, vs). n \<notin> set [''edo''])
             (cols (getitem_mask ?df1 ?mask))\<rparr>)"
    using present by (simp add: drop_columns_def)
  also have "\<dots> = Inr (df\<lparr>index := keep ?mask (index df),
             cols := map (\<lambda>(n, vs). (n, keep ?mask vs)) (filter (\<lambda>(n, vs). n \<noteq> ''edo'') (cols df))\<rparr>)"
    by (simp add: getitem_mask_def setitem_def filter_masked filter_update_same)
  finally show ?thesis
    using assms edo by (simp add: load_centroid_data_def getitem_def mask_of_slices)
qed

text \<open>
  C9. When the CSV has a CVEGEO column, \<open>load_centroid_data\<close> returns exactly the rows
  whose CVEGEO value ends in the given state code (its last three characters, the slice
  \<open>[-3:]\<close>): the row labels and every returned column are the input's, restricted to
  those rows, and no column named edo is returned.
\<close>

theorem load_centroid_data_rows:
  assumes "reader path = Inr df" and "map_of (cols df) ''CVEGEO'' = Some geo"
  shows "\<exists>out. load_centroid_data reader path state = Inr out
    \<and> index out = keep (map (state_code_is state) geo) (index df)
    \<and> (\<forall>n vs. n \<noteq> ''edo'' \<and> (n, vs) \<in> set (cols df)
          \<longrightarrow> (n, keep (map (state_code_is state) geo) vs) \<in> set (cols out))
    \<and> length (cols out) = length (filter (\<lambda>n. n \<noteq> ''edo'') (columns df))
    \<and> ''edo'' \<notin> set (columns out)"
proof -
  let ?out = "df\<lparr>index := keep (map (state_code_is state) geo) (index df),
             cols := map (\<lambda>(n, vs). (n, keep (map (state_code_is state) geo) vs))
                       (filter (\<lambda>(n, vs). n \<noteq> ''edo'') (cols df))\<rparr>"
  have len: "length (filter (\<lambda>(n, vs). n \<noteq> ''edo'') al) = length (filter (\<lambda>n. n \<noteq> ''edo'') (map fst al))"
    for al :: "(string \<times> cell list) list"
    by (induction al) auto
  have "load_centroid_data reader path state = Inr ?out"
    using assms by (rule load_centroid_data_result)
  moreover have "\<forall>n vs. n \<noteq> ''edo'' \<and> (n, vs) \<in> set (cols df)
          \<longrightarrow> (n, keep (map (state_code_is state) geo) vs) \<in> set (cols ?out)"
    by force
  moreover have "length (cols ?out) = length (filter (\<lambda>n. n \<noteq> ''edo'') (columns df))"
    by (simp add: columns_def len)
  moreover have "''edo'' \<notin> set (columns ?out)"
    by (auto simp: columns_def)
  ultimately show ?thesis by simp
qed

theorem load_centroid_data_rows_witness:
  "\<exists>out. load_centroid_data (\<lambda>p. Inr centroid_csv) ''centroids.csv'' ''131'' = Inr out
    \<and> index out = [Number ''0'']
    \<and> (''lat'', [Number ''21.9'']) \<in> set (cols out)
    \<and> ''edo'' \<notin> set (columns out)"
proof -
  have geo: "map_of (cols centroid_csv) ''CVEGEO'' = Some [Text ''0100131'', Text ''31'', NaN]"
    by (simp add: centroid_csv_def)
  have lat: "(''lat'', [Number ''21.9'', Number ''20.1'', Number ''19.4'']) \<in> set (cols centroid_csv)"
    by (simp add: centroid_csv_def)
  have mask: "state_code_is ''131'' (Text ''0100131'')" "\<not> state_code_is ''131'' (Text ''31'')"
    "\<not> state_code_is ''131'' NaN"
    by (simp_all add: state_code_is_def last3_def)
  from load_centroid_data_rows [of "\<lambda>p. Inr centroid_csv" "''centroids.csv''" centroid_csv, OF refl geo, of "''131''"]
  obtain out where out: "load_centroid_data (\<lambda>p. Inr centroid_csv) ''centroids.csv'' ''131'' = Inr out"
    "index out = keep (map (state_code_is ''131'') [Text ''0100131'', Text ''31'', NaN]) (index centroid_csv)"
    "\<forall>n vs. n \<noteq> ''edo'' \<and> (n, vs) \<in> set (cols centroid_csv)
          \<longrightarrow> (n, keep (map (state_code_is ''131'') [Text ''0100131'', Text ''31'', NaN]) vs) \<in> set (cols out)"
    "''edo'' \<notin> set (columns out)"
    by blast
  have idx: "index out = [Number ''0'']"
    using out(2) by (simp add: mask keep_def centroid_csv_def)
  have "''lat'' \<noteq> ''edo'' \<and> (''lat'', [Number ''21.9'', Number ''20.1'', Number ''19.4'']) \<in> set (cols centroid_csv)"
    using lat by simp
  from out(3) [rule_format, OF this]
  have "(''lat'', [Number ''21.9'']) \<in> set (cols out)"
    by (simp add: mask keep_def)
  with idx out(1) out(4) show ?thesis
    by (intro exI [of _ out]) simp
qed

text \<open>
  C10. The returned table has the input CSV's columns, in their order, without any column
  named edo. An edo column of the input is overwritten and dropped: the result is the one
  obtained from the CSV with that column removed beforehand, so its data never reaches the
  caller.
\<close>

theorem load_centroid_data_columns:
  assumes "reader path = Inr df" and "map_of (cols df) ''CVEGEO'' = Some geo"
  shows "\<exists>out. load_centroid_data reader path state = Inr out
    \<and> columns out = filter (\<lambda>n. n \<noteq> ''edo'') (columns df)
    \<and> load_centroid_data (\<lambda>p. Inr (df\<lparr>cols := filter (\<lambda>(n, vs). n \<noteq> ''edo'') (cols df)\<rparr>)) path state
        = Inr out"
proof -
  let ?df' = "df\<lparr>cols := filter (\<lambda>(n, vs). n \<noteq> ''edo'') (cols df)\<rparr>"
  let ?out = "df\<lparr>index := keep (map (state_code_is state) geo) (index df),
             cols := map (\<lambda>(n, vs). (n, keep (map (state_code_is state) geo) vs))
                       (filter (\<lambda>(n, vs). n \<noteq> ''edo'') (cols df))\<rparr>"
  have names: "map fst (filter (\<lambda>(n, vs). n \<noteq> ''edo'') al) = filter (\<lambda>n. n \<noteq> ''edo'') (map fst al)"
    for al :: "(string \<times> cell list) list"
    by (induction al) auto
  have geo': "map_of (cols ?df') ''CVEGEO'' = Some geo"
    using assms(2) by (simp add: map_of_filter_in)
  have idem: "filter (\<lambda>(n, vs). n \<noteq> ''edo'') (filter (\<lambda>(n, vs). n \<noteq> ''edo'') al) = filter (\<lambda>(n, vs). n \<noteq> ''edo'') al"
    for al :: "(string \<times> cell list) list"
    by (induction al) auto
  have "load_centroid_data reader path state = Inr ?out"
    using assms by (rule load_centroid_data_result)
  moreover have "columns ?out = filter (\<lambda>n. n \<noteq> ''edo'') (columns df)"
    by (simp add: columns_def fst_masked names)
  moreover have "load_centroid_data (\<lambda>p. Inr ?df') path state = Inr ?out"
    using load_centroid_data_result [of "\<lambda>p. Inr ?df'" path ?df' geo state, OF refl geo']
    by (simp add: idem)
  ultimately show ?thesis by simp
qed

theorem load_centroid_data_columns_witness:
  "\<exists>out. load_centroid_data (\<lambda>p. Inr centroid_csv) ''centroids.csv'' ''131'' = Inr out
    \<and> columns out = [''CVEGEO'', ''lat'']"
proof -
  have geo: "map_of (cols centroid_csv) ''CVEGEO'' = Some [Text ''0100131'', Text ''31'', NaN]"
    by (simp add: centroid_csv_def)
  have "filter (\<lambda>n. n \<noteq> ''edo'') (columns centroid_csv) = [''CVEGEO'', ''lat'']"
    by (simp add: columns_def centroid_csv_def)
  then show ?thesis
    using load_centroid_data_columns [of "\<lambda>p. Inr centroid_csv" "''centroids.csv''" centroid_csv, OF refl geo, of "''131''"]
    by auto
qed

section \<open>Properties of download\_function\<close>

lemmas worker_defs =
  download_function_def attempt_def respond_def has_parameters_def contains_def subscript_def
  climate_params_def DataFrame_def series_of_def frame_of_series_def union_keys_def
  save_climate_def empty_frame_def broadcast_def setitem_def add_date_or_period_def
  reorder_def columns_def select_columns_def to_csv_def

lemmas demo_defs =
  demo_env_def demo_world_def demo_response_def demo_payload_def demo_info_def

lemma key_absent: "map_of kvs k = None \<Longrightarrow> k \<notin> fst ` set kvs"
  by (simp add: map_of_eq_None_iff)

lemma key_present: "map_of kvs k = Some v \<Longrightarrow> k \<in> fst ` set kvs"
  by (meson domI dom_map_of_conv_image_fst [THEN equalityD1, THEN subsetD])



text \<open>
  C3, as the code has it. When the response is a JSON object without a \<open>properties\<close>
  member, or one whose \<open>properties\<close> is a JSON object without a \<open>parameter\<close> member, the
  worker reports success with no error and leaves every file as it was. (Where
  \<open>properties\<close> is not a container, the membership test itself raises and the job fails.)
\<close>

theorem silent_non_failure:
  assumes "http_json env request = Inr (JObj kvs)"
    and "map_of kvs ''properties'' = None
         \<or> (\<exists>ps. map_of kvs ''properties'' = Some (JObj ps) \<and> map_of ps ''parameter'' = None)"
  shows "download_function env (request, filepath, info) w
           = ((info, True, None), w\<lparr>requested := requested w @ [request]\<rparr>)
         \<and> files (snd (download_function env (request, filepath, info) w)) = files w"
proof -
  have "has_parameters (JObj kvs) = Inr False"
  proof (cases "map_of kvs ''properties''")
    case None
    then show ?thesis
      by (simp add: has_parameters_def contains_def key_absent)
  next
    case (Some props)
    with assms(2) obtain ps where ps: "props = JObj ps" "map_of ps ''parameter'' = None"
      by auto
    from Some have "''properties'' \<in> fst ` set kvs" by (rule key_present)
    then show ?thesis
      using Some ps by (simp add: has_parameters_def contains_def subscript_def key_absent)
  qed
  then have "attempt env (request, filepath, info) w = (Inr (), w\<lparr>requested := requested w @ [request]\<rparr>)"
    using assms(1) by (simp add: attempt_def respond_def)
  then show ?thesis
    by (simp add: download_function_def)
qed

theorem silent_non_failure_witness:
  "http_json demo_env ''u2'' = Inr (JObj [(''messages'', JArr [JStr ''no data''])])
   \<and> map_of [(''messages'', JArr [JStr ''no data''])] ''properties'' = None
   \<and> fst (download_function demo_env (''u2'', ''out/idx_0.csv'', demo_info) demo_world) = (demo_info, True, None)
   \<and> files (snd (download_function demo_env (''u2'', ''out/idx_0.csv'', demo_info) demo_world)) ''out/idx_0.csv'' = None"
proof -
  have h: "http_json demo_env ''u2'' = Inr (JObj [(''messages'', JArr [JStr ''no data''])])"
    by (simp add: demo_env_def)
  have a: "map_of [(''messages'', JArr [JStr ''no data''])] ''properties'' = None"
    by simp
  from silent_non_failure [OF h disjI1 [OF a], of "''out/idx_0.csv''" demo_info demo_world]
  show ?thesis using h by (simp add: demo_world_def)
qed

text \<open>
  The claim as written fails: a response that parses as JSON and has no
  \<open>properties.parameter\<close> mapping, because its \<open>properties\<close> is null, gives a failed
  result.
\<close>

theorem null_properties_counterexample:
  "http_json demo_env ''u3'' = Inr (JObj [(''properties'', JNull)])
   \<and> fst (download_function demo_env (''u3'', ''out/idx_0.csv'', demo_info) demo_world)
       = (demo_info, False, Some ''TypeError: argument is not iterable'')"
  by (simp add: worker_defs demo_defs)

lemma update_fresh: "k \<notin> fst ` set al \<Longrightarrow> AList.update k v al = al @ [(k, v)]"
  by (induction al) auto

lemma those_lookup:
  "(\<And>n vs. (n, vs) \<in> set xs \<Longrightarrow> m n = Some vs)
     \<Longrightarrow> those (map (\<lambda>n. map_option (Pair n) (m n)) (map fst xs)) = Some xs"
proof (induction xs)
  case Nil
  then show ?case by simp
next
  case (Cons x xs)
  obtain n vs where x: "x = (n, vs)" by (cases x)
  have "m n = Some vs" using Cons.prems [of n vs] x by simp
  moreover have "those (map (\<lambda>n. map_option (Pair n) (m n)) (map fst xs)) = Some xs"
    using Cons.IH Cons.prems by simp
  ultimately show ?case using x by simp
qed

lemma map_of_front:
  "distinct (map fst al) \<Longrightarrow> (n, vs) \<in> set al \<Longrightarrow> map_of (al @ ex) n = Some vs"
  by (simp add: map_add_Some_iff)

lemma map_of_back:
  "n \<notin> fst ` set al \<Longrightarrow> map_of (al @ ex) n = map_of ex n"
  by (simp add: map_add_def map_of_eq_None_iff [THEN iffD2])

lemma filter_four:
  "a \<notin> set xs \<Longrightarrow> b \<notin> set xs \<Longrightarrow> c \<notin> set xs \<Longrightarrow> d \<notin> set xs
     \<Longrightarrow> filter (\<lambda>x. x \<noteq> a \<and> x \<noteq> b \<and> x \<noteq> c \<and> x \<noteq> d) xs = xs"
  by (induction xs) auto

lemma save_climate_columns:
  assumes ne: "\<not> empty_frame df" and nm: "index_name df = None"
    and dist: "distinct (columns df)"
    and fresh: "set (columns df) \<inter> set reserved_names = {}"
    and wr: "write_error env filepath = None"
  shows "save_climate env df filepath info w =
     (Inr (), w\<lparr>files := (files w)(filepath \<mapsto> Csv (
        [(''identifier'', replicate (length (index df)) (info_identifier info)),
         (''latitude'', replicate (length (index df)) (info_latitude info)),
         (''longitude'', replicate (length (index df)) (info_longitude info)),
         date_or_period env (index df)] @ cols df))\<rparr>)"
proof -
  let ?n = "length (index df)"
  let ?a = "(''latitude'', replicate ?n (info_latitude info))"
  let ?b = "(''longitude'', replicate ?n (info_longitude info))"
  let ?c = "(''identifier'', replicate ?n (info_identifier info))"
  obtain dn dv where d: "date_or_period env (index df) = (dn, dv)"
    by (cases "date_or_period env (index df)")
  have g: "''identifier'' \<notin> set (map fst (cols df))" "''latitude'' \<notin> set (map fst (cols df))"
    "''longitude'' \<notin> set (map fst (cols df))" "''date'' \<notin> set (map fst (cols df))"
    "''period'' \<notin> set (map fst (cols df))"
    using fresh by (auto simp: columns_def reserved_names_def)
  then have f: "''identifier'' \<notin> fst ` set (cols df)" "''latitude'' \<notin> fst ` set (cols df)"
    "''longitude'' \<notin> fst ` set (cols df)" "''date'' \<notin> fst ` set (cols df)"
    "''period'' \<notin> fst ` set (cols df)"
    by simp_all
  have idx: "index df \<noteq> []" using ne by (simp add: empty_frame_def)
  let ?df3 = "broadcast (broadcast (broadcast df ''latitude'' (info_latitude info))
                 ''longitude'' (info_longitude info)) ''identifier'' (info_identifier info)"
  have c3: "cols ?df3 = cols df @ [?a, ?b, ?c]"
    using f by (simp add: broadcast_def setitem_def update_fresh)
  have i3: "index ?df3 = index df" "index_name ?df3 = None"
    using nm by (simp_all add: broadcast_def setitem_def)
  have dname: "dn = ''date'' \<or> dn = ''period''"
    using d by (auto simp: date_or_period_def split: option.splits)
  have c4: "cols (add_date_or_period env ?df3) = cols df @ [?a, ?b, ?c, (dn, dv)]"
  proof (cases "those (map (parse_ymd env) (index df))")
    case None
    then have "dn = ''period''" "dv = index df"
      using d by (simp_all add: date_or_period_def)
    then show ?thesis
      using None f idx i3 c3 by (simp add: add_date_or_period_def setitem_def update_fresh)
  next
    case (Some dates)
    then have "dn = ''date''" "dv = dates"
      using d by (simp_all add: date_or_period_def)
    then show ?thesis
      using Some f idx i3 c3 by (simp add: add_date_or_period_def setitem_def update_fresh)
  qed
  let ?df4 = "add_date_or_period env ?df3"
  define out where "out = [?c, ?a, ?b, (dn, dv)] @ cols df"
  have names: "([''identifier'', ''latitude'', ''longitude'']
            @ (if ''date'' \<in> set (columns ?df4) then [''date''] else [])
            @ (if ''period'' \<in> set (columns ?df4) then [''period''] else []))
            @ filter (\<lambda>col. col \<notin> set ([''identifier'', ''latitude'', ''longitude'']
                @ (if ''date'' \<in> set (columns ?df4) then [''date''] else [])
                @ (if ''period'' \<in> set (columns ?df4) then [''period''] else []))) (columns ?df4)
          = map fst out"
  proof -
    note drop_date = filter_four [OF g(1) g(2) g(3) g(4)]
    note drop_period = filter_four [OF g(1) g(2) g(3) g(5)]
    from dname show ?thesis
    proof
      assume "dn = ''date''"
      then show ?thesis using f by (simp add: out_def columns_def c4 drop_date)
    next
      assume "dn = ''period''"
      then show ?thesis using f by (simp add: out_def columns_def c4 drop_period)
    qed
  qed
  have look: "map_of (cols ?df4) n = Some vs" if "(n, vs) \<in> set out" for n vs
  proof -
    have dd: "distinct (map fst (cols df))" using dist by (simp add: columns_def)
    have h: "map_of (cols df) ''identifier'' = None" "map_of (cols df) ''latitude'' = None"
      "map_of (cols df) ''longitude'' = None" "map_of (cols df) ''date'' = None"
      "map_of (cols df) ''period'' = None"
      using f by (simp_all add: map_of_eq_None_iff)
    have "(n = ''identifier'' \<and> vs = replicate ?n (info_identifier info))
        \<or> (n = ''latitude'' \<and> vs = replicate ?n (info_latitude info))
        \<or> (n = ''longitude'' \<and> vs = replicate ?n (info_longitude info))
        \<or> (n = dn \<and> vs = dv)
        \<or> (n, vs) \<in> set (cols df)"
      using that by (simp add: out_def)
    then show ?thesis
    proof (elim disjE conjE)
      assume "(n, vs) \<in> set (cols df)"
      with dd show ?thesis unfolding c4 by (rule map_of_front)
    next
      assume "n = ''identifier''" "vs = replicate ?n (info_identifier info)"
      then show ?thesis using h by (simp add: c4 map_add_def)
    next
      assume "n = ''latitude''" "vs = replicate ?n (info_latitude info)"
      then show ?thesis using h by (simp add: c4 map_add_def)
    next
      assume "n = ''longitude''" "vs = replicate ?n (info_longitude info)"
      then show ?thesis using h by (simp add: c4 map_add_def)
    next
      assume nd: "n = dn" "vs = dv"
      from dname show ?thesis
      proof
        assume "dn = ''date''"
        then show ?thesis using nd h by (simp add: c4 map_add_def)
      next
        assume "dn = ''period''"
        then show ?thesis using nd h by (simp add: c4 map_add_def)
      qed
    qed
  qed
  have "those (map (\<lambda>n. map_option (Pair n) (map_of (cols ?df4) n)) (map fst out)) = Some out"
    using look by (rule those_lookup)
  then have "reorder ?df4 = Inr (?df4\<lparr>cols := out\<rparr>)"
    unfolding reorder_def Let_def names select_columns_def by simp
  then show ?thesis
    using ne wr d by (simp add: save_climate_def Let_def to_csv_def out_def)
qed


lemma those_keys:
  "those (map (\<lambda>(name, v). map_option (Pair name) (f v)) vars) = Some series
     \<Longrightarrow> map fst series = map fst vars"
proof (induction vars arbitrary: series)
  case Nil
  then show ?case by simp
next
  case (Cons x vars)
  obtain name v where x: "x = (name, v)" by (cases x)
  from Cons.prems x obtain s rest where
    s: "f v = Some s" and rest: "those (map (\<lambda>(name, v). map_option (Pair name) (f v)) vars) = Some rest"
    and series: "series = (name, s) # rest"
    by (auto split: option.splits)
  from Cons.IH [OF rest] series x show ?case by simp
qed

lemma frame_of_series_shape:
  "index_name (frame_of_series series) = None"
  "columns (frame_of_series series) = map fst series"
  by (simp_all add: frame_of_series_def Let_def columns_def comp_def case_prod_unfold)

text \<open>
  C5, as the code has it. When the payload is a dict of dicts of scalars whose variable names
  are distinct and none of identifier, latitude, longitude, date, period, and the table is
  not empty, the file written has the columns identifier, latitude, longitude, then one
  column made of the period keys (date with the parsed keys when every key parses, period
  with the keys verbatim otherwise), then the variables in the order of the response.
\<close>

theorem written_columns:
  assumes resp: "http_json env request = Inr (JObj kvs)"
    and props: "map_of kvs ''properties'' = Some (JObj ps)"
    and param: "map_of ps ''parameter'' = Some (JObj vars)"
    and reg: "those (map (\<lambda>(name, v). map_option (Pair name) (series_of v)) vars) = Some series"
    and dist: "distinct (map fst vars)"
    and fresh: "set (map fst vars) \<inter> set reserved_names = {}"
    and ne: "\<not> empty_frame (frame_of_series series)"
    and wr: "write_error env filepath = None"
  shows "fst (download_function env (request, filepath, info) w) = (info, True, None)
    \<and> files (snd (download_function env (request, filepath, info) w)) filepath =
        Some (Csv ([(''identifier'', replicate (length (index (frame_of_series series))) (info_identifier info)),
                    (''latitude'', replicate (length (index (frame_of_series series))) (info_latitude info)),
                    (''longitude'', replicate (length (index (frame_of_series series))) (info_longitude info)),
                    date_or_period env (index (frame_of_series series))]
                   @ cols (frame_of_series series)))
    \<and> map fst (cols (frame_of_series series)) = map fst vars"
proof -
  let ?df = "frame_of_series series"
  have names: "map fst series = map fst vars"
    using reg by (rule those_keys)
  have "''properties'' \<in> fst ` set kvs" using props by (rule key_present)
  moreover have "''parameter'' \<in> fst ` set ps" using param by (rule key_present)
  ultimately have hp: "has_parameters (JObj kvs) = Inr True"
    using props by (simp add: has_parameters_def contains_def subscript_def)
  have cp: "climate_params (JObj kvs) = Inr (JObj vars)"
    using props param by (simp add: climate_params_def subscript_def)
  have dfr: "DataFrame env (JObj vars) = Inr ?df"
    using reg by (simp add: DataFrame_def)
  have "save_climate env ?df filepath info (w\<lparr>requested := requested w @ [request]\<rparr>) =
     (Inr (), (w\<lparr>requested := requested w @ [request]\<rparr>)\<lparr>files := (files (w\<lparr>requested := requested w @ [request]\<rparr>))(filepath \<mapsto> Csv (
        [(''identifier'', replicate (length (index ?df)) (info_identifier info)),
         (''latitude'', replicate (length (index ?df)) (info_latitude info)),
         (''longitude'', replicate (length (index ?df)) (info_longitude info)),
         date_or_period env (index ?df)] @ cols ?df))\<rparr>)"
    using ne frame_of_series_shape(1) _ _ wr
  proof (rule save_climate_columns)
    show "distinct (columns ?df)" using dist by (simp add: frame_of_series_shape names)
    show "set (columns ?df) \<inter> set reserved_names = {}"
      using fresh by (simp add: frame_of_series_shape names)
  qed
  then have "attempt env (request, filepath, info) w =
     (Inr (), (w\<lparr>requested := requested w @ [request]\<rparr>)\<lparr>files := (files w)(filepath \<mapsto> Csv (
        [(''identifier'', replicate (length (index ?df)) (info_identifier info)),
         (''latitude'', replicate (length (index ?df)) (info_latitude info)),
         (''longitude'', replicate (length (index ?df)) (info_longitude info)),
         date_or_period env (index ?df)] @ cols ?df))\<rparr>)"
    using resp hp cp dfr by (simp add: attempt_def respond_def)
  then have "download_function env (request, filepath, info) w =
     ((info, True, None), (w\<lparr>requested := requested w @ [request]\<rparr>)\<lparr>files := (files w)(filepath \<mapsto> Csv (
        [(''identifier'', replicate (length (index ?df)) (info_identifier info)),
         (''latitude'', replicate (length (index ?df)) (info_latitude info)),
         (''longitude'', replicate (length (index ?df)) (info_longitude info)),
         date_or_period env (index ?df)] @ cols ?df))\<rparr>)"
    by (simp add: download_function_def)
  moreover have "map fst (cols ?df) = map fst vars"
    using frame_of_series_shape(2) [of series] names by (simp add: columns_def)
  ultimately show ?thesis by simp
qed

theorem written_columns_witness:
  "http_json demo_env ''u1'' = Inr demo_response
   \<and> set (map fst [(''T2M'', JObj [(''20150101'', JNum ''12.5''), (''20150102'', JNum ''13.1'')])])
        \<inter> set reserved_names = {}
   \<and> files (snd (download_function demo_env (''u1'', ''out/idx_0.csv'', demo_info) demo_world)) ''out/idx_0.csv''
      = Some (Csv [(''identifier'', [Text ''idx_0'', Text ''idx_0'']),
                   (''latitude'', [Number ''21.9'', Number ''21.9'']),
                   (''longitude'', [Number ''-102.3'', Number ''-102.3'']),
                   (''date'', [Stamp 2015 1 1, Stamp 2015 1 2]),
                   (''T2M'', [Number ''12.5'', Number ''13.1''])])"
proof -
  let ?vars = "[(''T2M'', JObj [(''20150101'', JNum ''12.5''), (''20150102'', JNum ''13.1'')])]"
  let ?series = "[(''T2M'', [(''20150101'', Number ''12.5''), (''20150102'', Number ''13.1'')])]"
  have resp: "http_json demo_env ''u1'' = Inr (JObj [(''properties'', JObj [(''parameter'', JObj ?vars)])])"
    by (simp add: demo_env_def demo_response_def demo_payload_def)
  have props: "map_of [(''properties'', JObj [(''parameter'', JObj ?vars)])] ''properties''
      = Some (JObj [(''parameter'', JObj ?vars)])"
    by simp
  have param: "map_of [(''parameter'', JObj ?vars)] ''parameter'' = Some (JObj ?vars)"
    by simp
  have reg: "those (map (\<lambda>(name, v). map_option (Pair name) (series_of v)) ?vars) = Some ?series"
    by (simp add: series_of_def)
  have dist: "distinct (map fst ?vars)" by simp
  have fresh: "set (map fst ?vars) \<inter> set reserved_names = {}"
    by (simp add: reserved_names_def)
  have ne: "\<not> empty_frame (frame_of_series ?series)"
    by (simp add: empty_frame_def frame_of_series_def union_keys_def)
  have wr: "write_error demo_env ''out/idx_0.csv'' = None"
    by (simp add: demo_env_def)
  have fr: "frame_of_series ?series =
      \<lparr>index_name = None, index = [Text ''20150101'', Text ''20150102''],
       cols = [(''T2M'', [Number ''12.5'', Number ''13.1''])]\<rparr>"
    by (simp add: frame_of_series_def union_keys_def)
  have dp: "date_or_period demo_env [Text ''20150101'', Text ''20150102'']
      = (''date'', [Stamp 2015 1 1, Stamp 2015 1 2])"
    by (simp add: date_or_period_def demo_env_def)
  from written_columns [OF resp props param reg dist fresh ne wr, of demo_info demo_world]
  show ?thesis using resp fresh
    by (simp add: fr dp demo_info_def demo_response_def demo_payload_def)
qed

text \<open>
  The claim as written fails when the provider names a variable like a column the worker
  adds: for the payload \<open>{"date": {"ANN": 1.5}}\<close> the key does not parse, and the file has
  both a date and a period column, date holding the variable.
\<close>

theorem date_and_period_counterexample:
  "files (snd (download_function demo_env (''u4'', ''out/idx_0.csv'', demo_info) demo_world)) ''out/idx_0.csv''
     = Some (Csv [(''identifier'', [Text ''idx_0'']),
                  (''latitude'', [Number ''21.9'']),
                  (''longitude'', [Number ''-102.3'']),
                  (''date'', [Number ''1.5'']),
                  (''period'', [Text ''ANN''])])"
  by (simp add: worker_defs demo_defs)

section \<open>Properties of download\_nasa\_power\_data\<close>

lemma first_issue:
  "c1 \<or> c2 \<or> c3 \<or> c4 \<or> c5 \<Longrightarrow>
     \<exists>i. (if c1 then Some (ConfigurationError i1)
          else if c2 then Some (ConfigurationError i2)
          else if c3 then Some (ConfigurationError i3)
          else if c4 then Some (ConfigurationError i4)
          else if c5 then Some (ConfigurationError i5)
          else None) = Some (ConfigurationError i)"
  by auto

text \<open>
  C4. When the latitude or the longitude column is missing, or the parameter list is empty,
  or the temporal resolution, the spatial resolution or the community is not one of the
  valid values, the call raises the \<open>ValueError\<close> of the validation block and the world is
  as it was: no folder created, no file written, no request sent.
\<close>

theorem validation_fails_fast:
  assumes "(lat_col opts \<notin> set (columns df) \<or> lon_col opts \<notin> set (columns df))
      \<or> parameters opts = []
      \<or> temporal_resolution opts \<notin> set [''daily'', ''monthly'', ''climatology'']
      \<or> spatial_resolution opts \<notin> set [''point'', ''regional'']
      \<or> community opts \<notin> set [''RE'', ''AG'', ''SB'']"
  shows "\<exists>i. download_nasa_power_data env sched df opts w = (Inl (ConfigurationError i), w)"
proof -
  have "\<exists>i. validate df opts = Some (ConfigurationError i)"
    unfolding validate_def using assms by (rule first_issue)
  then obtain i where "validate df opts = Some (ConfigurationError i)" ..
  then have "download_nasa_power_data env sched df opts w = (Inl (ConfigurationError i), w)"
    by (simp add: download_nasa_power_data_def collect_outcomes_def)
  then show ?thesis ..
qed

theorem validation_fails_fast_witness:
  "community (demo_options\<lparr>community := ''XX''\<rparr>) \<notin> set [''RE'', ''AG'', ''SB'']
   \<and> (\<exists>i. download_nasa_power_data demo_env [] demo_locations (demo_options\<lparr>community := ''XX''\<rparr>) demo_world
          = (Inl (ConfigurationError i), demo_world))
   \<and> folders demo_world = [] \<and> requested demo_world = []"
proof -
  let ?opts = "demo_options\<lparr>community := ''XX''\<rparr>"
  have c: "community ?opts \<notin> set [''RE'', ''AG'', ''SB'']"
    by simp
  have "(lat_col ?opts \<notin> set (columns demo_locations) \<or> lon_col ?opts \<notin> set (columns demo_locations))
      \<or> parameters ?opts = []
      \<or> temporal_resolution ?opts \<notin> set [''daily'', ''monthly'', ''climatology'']
      \<or> spatial_resolution ?opts \<notin> set [''point'', ''regional'']
      \<or> community ?opts \<notin> set [''RE'', ''AG'', ''SB'']"
    using c by (intro disjI2)
  then have "\<exists>i. download_nasa_power_data demo_env [] demo_locations ?opts demo_world
          = (Inl (ConfigurationError i), demo_world)"
    by (rule validation_fails_fast)
  moreover have "folders demo_world = []" "requested demo_world = []"
    by (simp_all add: demo_world_def)
  ultimately show ?thesis using c by (intro conjI)
qed

lemma read_back_eq:
  "read_back w folder rows = (readable_tables w folder rows, read_failures w folder rows)"
  by (induction rows)
     (auto simp: readable_tables_def read_failures_def split: sum.splits)

lemma length_range_index: "length (range_index n) = n"
  by (simp add: range_index_def)

text \<open>
  C7, as the code has it. For results that are not empty: when consolidation is not asked
  for, or no result succeeded, the table of results is returned as it is and nothing is
  read. Otherwise the file of every successful result is read back: one that is missing or
  unreadable is left out with a message, one that parses to an empty table is left out
  without a message, and the others are put one under the other (as many rows as they have
  together); the empty table is returned when none is left.
\<close>

theorem reduce_results_cases:
  assumes "download_results \<noteq> []"
  shows "(\<not> return_consolidated opts \<or> (\<forall>r\<in>set download_results. \<not> success r) \<longrightarrow>
            reduce_results download_results opts w = (Inr (Results download_results), w))
    \<and> (return_consolidated opts \<and> (\<exists>r\<in>set download_results. success r) \<longrightarrow>
            reduce_results download_results opts w =
              (Inr (Climate
                 (if readable_tables w (output_folder opts) (filter success download_results) = []
                  then \<lparr>index_name = None, index = [], cols = []\<rparr>
                  else concat_frames
                         (readable_tables w (output_folder opts) (filter success download_results)))),
               w\<lparr>diagnostics := diagnostics w
                    @ read_failures w (output_folder opts) (filter success download_results)\<rparr>))
    \<and> length (index (concat_frames tables)) = sum_list (map (\<lambda>df. length (index df)) tables)"
proof (intro conjI impI)
  have col: "success_column download_results = Inr (map success download_results)"
    using assms by (simp add: success_column_def)
  have any: "True \<in> set (map success download_results) \<longleftrightarrow> (\<exists>r\<in>set download_results. success r)"
    by auto
  show "reduce_results download_results opts w = (Inr (Results download_results), w)"
    if "\<not> return_consolidated opts \<or> (\<forall>r\<in>set download_results. \<not> success r)"
    using that col any by (auto simp: reduce_results_def)
  show "reduce_results download_results opts w =
              (Inr (Climate
                 (if readable_tables w (output_folder opts) (filter success download_results) = []
                  then \<lparr>index_name = None, index = [], cols = []\<rparr>
                  else concat_frames
                         (readable_tables w (output_folder opts) (filter success download_results)))),
               w\<lparr>diagnostics := diagnostics w
                    @ read_failures w (output_folder opts) (filter success download_results)\<rparr>)"
    if "return_consolidated opts \<and> (\<exists>r\<in>set download_results. success r)"
    using that col any by (simp add: reduce_results_def consolidate_csv_data_def read_back_eq)
  show "length (index (concat_frames tables)) = sum_list (map (\<lambda>df. length (index df)) tables)"
    by (simp add: concat_frames_def Let_def length_range_index)
qed

lemmas reducer_defs =
  reduce_results_def success_column_def consolidate_csv_data_def read_csv_def path_join_def
  empty_frame_def concat_frames_def union_keys_def columns_def range_index_def

text \<open>
  The claim as written fails on the diagnostic: the file of the second successful result
  parses to an empty table and is left out, and no message is recorded for it.
\<close>

theorem silent_skip_counterexample:
  "read_csv demo_disk ''out/b.csv'' = Inr \<lparr>index_name = None, index = [], cols = [(''T2M'', [])]\<rparr>
   \<and> reduce_results [demo_result ''a.csv'', demo_result ''b.csv'']
         (demo_options\<lparr>return_consolidated := True\<rparr>) demo_disk
       = (Inr (Climate \<lparr>index_name = None, index = [Number ''0'', Number ''1''],
                       cols = [(''date'', [Text ''2015-01-01'', Text ''2015-01-02'']),
                               (''T2M'', [Number ''12.5'', Number ''13.1''])]\<rparr>),
          demo_disk)
   \<and> diagnostics demo_disk = []"
  by (simp add: reducer_defs demo_disk_def demo_result_def demo_options_def decimal.simps)

theorem reduce_results_cases_witness:
  "[demo_result ''a.csv'', demo_result ''b.csv'', demo_result ''c.csv''] \<noteq> []
   \<and> return_consolidated (demo_options\<lparr>return_consolidated := True\<rparr>)
   \<and> success (demo_result ''a.csv'')
   \<and> reduce_results [demo_result ''a.csv'', demo_result ''b.csv'', demo_result ''c.csv'']
         (demo_options\<lparr>return_consolidated := True\<rparr>) demo_disk
       = (Inr (Climate \<lparr>index_name = None, index = [Number ''0'', Number ''1''],
                       cols = [(''date'', [Text ''2015-01-01'', Text ''2015-01-02'']),
                               (''T2M'', [Number ''12.5'', Number ''13.1''])]\<rparr>),
          demo_disk\<lparr>diagnostics := [(''c.csv'', ''FileNotFoundError'')]\<rparr>)"
proof -
  let ?rs = "[demo_result ''a.csv'', demo_result ''b.csv'', demo_result ''c.csv'']"
  let ?opts = "demo_options\<lparr>return_consolidated := True\<rparr>"
  have ne: "?rs \<noteq> []" by simp
  have ok: "success (demo_result ''a.csv'')" by (simp add: demo_result_def)
  have rc: "return_consolidated ?opts" by simp
  have some: "return_consolidated ?opts \<and> (\<exists>r\<in>set ?rs. success r)"
    using ok rc by simp
  have kept: "filter success ?rs = ?rs" by (simp add: demo_result_def)
  have tables: "readable_tables demo_disk (output_folder ?opts) ?rs =
      [\<lparr>index_name = None, index = [Number ''0'', Number ''1''],
        cols = [(''date'', [Text ''2015-01-01'', Text ''2015-01-02'']),
                (''T2M'', [Number ''12.5'', Number ''13.1''])]\<rparr>]"
    by (simp add: readable_tables_def reducer_defs demo_disk_def demo_result_def demo_options_def decimal.simps)
  have failures: "read_failures demo_disk (output_folder ?opts) ?rs = [(''c.csv'', ''FileNotFoundError'')]"
    by (simp add: read_failures_def reducer_defs demo_disk_def demo_result_def demo_options_def)
  have whole: "concat_frames [\<lparr>index_name = None, index = [Number ''0'', Number ''1''],
        cols = [(''date'', [Text ''2015-01-01'', Text ''2015-01-02'']),
                (''T2M'', [Number ''12.5'', Number ''13.1''])]\<rparr>]
     = \<lparr>index_name = None, index = [Number ''0'', Number ''1''],
        cols = [(''date'', [Text ''2015-01-01'', Text ''2015-01-02'']),
                (''T2M'', [Number ''12.5'', Number ''13.1''])]\<rparr>"
    by (simp add: reducer_defs decimal.simps)
  have d: "diagnostics demo_disk = []" by (simp add: demo_disk_def)
  from reduce_results_cases [OF ne, of ?opts demo_disk, THEN conjunct2, THEN conjunct1, THEN mp, OF some]
  have "reduce_results ?rs ?opts demo_disk =
              (Inr (Climate
                 (if readable_tables demo_disk (output_folder ?opts) (filter success ?rs) = []
                  then \<lparr>index_name = None, index = [], cols = []\<rparr>
                  else concat_frames
                         (readable_tables demo_disk (output_folder ?opts) (filter success ?rs)))),
               demo_disk\<lparr>diagnostics := diagnostics demo_disk
                    @ read_failures demo_disk (output_folder ?opts) (filter success ?rs)\<rparr>)" .
  then have "reduce_results ?rs ?opts demo_disk
       = (Inr (Climate \<lparr>index_name = None, index = [Number ''0'', Number ''1''],
                       cols = [(''date'', [Text ''2015-01-01'', Text ''2015-01-02'']),
                               (''T2M'', [Number ''12.5'', Number ''13.1''])]\<rparr>),
          demo_disk\<lparr>diagnostics := [(''c.csv'', ''FileNotFoundError'')]\<rparr>)"
    unfolding kept tables failures d whole by simp
  with ne rc ok show ?thesis by (intro conjI)
qed

section \<open>Properties of the pool\<close>

text \<open>
  What a worker returns for a job does not depend on the files, the folders or the requests
  of the others, and a worker at work starts no other worker.
\<close>

lemma to_csv_verdict: "fst (to_csv env df p w) = fst (to_csv env df p w')"
  by (simp add: to_csv_def split: option.splits)

lemma save_climate_verdict:
  "fst (save_climate env df p info w) = fst (save_climate env df p info w')"
  using to_csv_verdict [of env _ p w w']
  by (simp add: save_climate_def Let_def split: sum.splits)

lemma respond_verdict: "fst (respond env j w) = fst (respond env j w')"
  using save_climate_verdict [of env _ _ _ w w']
  by (simp add: respond_def split: prod.splits sum.splits bool.splits)

lemma to_csv_peak: "peak_workers (snd (to_csv env df p w)) = peak_workers w"
  by (simp add: to_csv_def split: option.splits)

lemma save_climate_peak: "peak_workers (snd (save_climate env df p info w)) = peak_workers w"
  by (simp add: save_climate_def Let_def to_csv_peak split: sum.splits)

lemma respond_peak: "peak_workers (snd (respond env j w)) = peak_workers w"
  by (simp add: respond_def save_climate_peak split: prod.splits sum.splits bool.splits)

lemma complete_peak: "peak_workers (snd (complete env j w)) = peak_workers w"
proof -
  obtain request filepath info where j: "j = (request, filepath, info)" by (cases j)
  obtain r w' where r: "respond env j w = (r, w')" by (cases "respond env j w")
  have "peak_workers w' = peak_workers w" using respond_peak [of env j w] r by simp
  then show ?thesis using j r by (cases r) (simp_all add: complete_def)
qed

lemma complete_verdict: "fst (complete env j w1) = fst (download_function env j w)"
proof -
  obtain request filepath info where j: "j = (request, filepath, info)" by (cases j)
  let ?w = "w\<lparr>requested := requested w @ [request]\<rparr>"
  obtain r w' where r: "respond env j w1 = (r, w')" by (cases "respond env j w1")
  obtain r2 w2 where r2: "respond env j ?w = (r2, w2)" by (cases "respond env j ?w")
  have "r = r2" using respond_verdict [of env j w1 ?w] r r2 by simp
  then show ?thesis using j r r2
    by (cases r2) (auto simp: complete_def download_function_def attempt_def)
qed


lemma finish_all_results: "fst (finish_all env js w1) = map (verdict env w) js"
proof (induction js arbitrary: w1)
  case Nil
  then show ?case by simp
next
  case (Cons j js)
  obtain r w2 where c: "complete env j w1 = (r, w2)" by (cases "complete env j w1")
  obtain rs w3 where f: "finish_all env js w2 = (rs, w3)" by (cases "finish_all env js w2")
  have "r = verdict env w j" using complete_verdict [of env j w1 w] c by (simp add: verdict_def)
  moreover have "rs = map (verdict env w) js" using Cons.IH [of w2] f by simp
  ultimately show ?case using c f by simp
qed

lemma one_by_one_results: "fst (one_by_one env js w1) = map (verdict env w) js"
proof (induction js arbitrary: w1)
  case Nil
  then show ?case by simp
next
  case (Cons j js)
  obtain r w2 where c: "complete env j (dispatch j 0 w1) = (r, w2)"
    by (cases "complete env j (dispatch j 0 w1)")
  obtain rs w3 where f: "one_by_one env js w2 = (rs, w3)" by (cases "one_by_one env js w2")
  have "r = verdict env w j"
    using complete_verdict [of env j "dispatch j 0 w1" w] c by (simp add: verdict_def)
  moreover have "rs = map (verdict env w) js" using Cons.IH [of w2] f by simp
  ultimately show ?case using c f by simp
qed

lemma mset_without_nth:
  "i < length xs \<Longrightarrow> add_mset (xs ! i) (mset (take i xs @ drop (Suc i) xs)) = mset xs"
proof -
  assume "i < length xs"
  then have "xs = take i xs @ xs ! i # drop (Suc i) xs" by (rule id_take_nth_drop)
  then have "mset xs = mset (take i xs @ xs ! i # drop (Suc i) xs)" by simp
  then show ?thesis by simp
qed

lemma imap_unordered_results:
  "0 < pool \<Longrightarrow>
   mset (fst (imap_unordered env pool sched pending running w1))
     = mset (map (verdict env w) pending) + mset (map (verdict env w) running)"
proof (induction sched arbitrary: pending running w1)
  case Nil
  obtain rs w2 where f: "finish_all env running w1 = (rs, w2)" by (cases "finish_all env running w1")
  obtain rs' w3 where o: "one_by_one env pending w2 = (rs', w3)" by (cases "one_by_one env pending w2")
  have "rs = map (verdict env w) running" using finish_all_results [of env running w1 w] f by simp
  moreover have "rs' = map (verdict env w) pending" using one_by_one_results [of env pending w2 w] o by simp
  ultimately show ?case using Nil f o by simp
next
  case (Cons ev sched)
  note IH = Cons.IH [OF Cons.prems]
  show ?case
  proof (cases ev)
    case Dispatch
    show ?thesis
    proof (cases pending)
      case Nil
      then show ?thesis using Dispatch IH [of "[]" running w1] by simp
    next
      case (Cons j js)
      show ?thesis
      proof (cases "length running < pool")
        case True
        then show ?thesis
          using Dispatch Cons IH [of js "running @ [j]" "dispatch j (length running) w1"]
          by simp
      next
        case False
        then show ?thesis
          using Dispatch Cons IH [of pending running w1]
          by simp
      qed
    qed
  next
    case (Complete i)
    show ?thesis
    proof (cases "i < length running")
      case True
      let ?rest = "take i running @ drop (Suc i) running"
      obtain r w2 where c: "complete env (running ! i) w1 = (r, w2)"
        by (cases "complete env (running ! i) w1")
      obtain rs w3 where f: "imap_unordered env pool sched pending ?rest w2 = (rs, w3)"
        by (cases "imap_unordered env pool sched pending ?rest w2")
      have r: "r = verdict env w (running ! i)"
        using complete_verdict [of env "running ! i" w1 w] c by (simp add: verdict_def)
      have "mset rs = mset (map (verdict env w) pending) + mset (map (verdict env w) ?rest)"
        using IH [of pending ?rest w2] f by simp
      moreover have "add_mset (verdict env w (running ! i)) (mset (map (verdict env w) ?rest))
          = mset (map (verdict env w) running)"
        using mset_without_nth [OF True] by (metis image_mset_add_mset mset_map)
      ultimately show ?thesis using Complete True c f r by simp
    next
      case False
      then show ?thesis using Complete IH [of pending running w1] by simp
    qed
  qed
qed

text \<open>The workers at work at a time, over any schedule and over the eager one.\<close>

lemma dispatch_peak:
  "peak_workers (dispatch j busy w) = max (peak_workers w) (Suc busy)"
  by (cases j) (simp add: dispatch_def)

lemma finish_all_peak: "peak_workers (snd (finish_all env js w)) = peak_workers w"
proof (induction js arbitrary: w)
  case Nil
  then show ?case by simp
next
  case (Cons j js)
  obtain r w1 where c: "complete env j w = (r, w1)" by (cases "complete env j w")
  obtain rs w2 where f: "finish_all env js w1 = (rs, w2)" by (cases "finish_all env js w1")
  have "peak_workers w1 = peak_workers w" using complete_peak [of env j w] c by simp
  moreover have "peak_workers w2 = peak_workers w1" using Cons.IH [of w1] f by simp
  ultimately show ?case using c f by simp
qed

lemma one_by_one_peak:
  "peak_workers (snd (one_by_one env js w)) = (if js = [] then peak_workers w else max (peak_workers w) 1)"
proof (induction js arbitrary: w)
  case Nil
  then show ?case by simp
next
  case (Cons j js)
  obtain r w1 where c: "complete env j (dispatch j 0 w) = (r, w1)"
    by (cases "complete env j (dispatch j 0 w)")
  obtain rs w2 where f: "one_by_one env js w1 = (rs, w2)" by (cases "one_by_one env js w1")
  have "peak_workers w1 = max (peak_workers w) 1"
    using complete_peak [of env j "dispatch j 0 w"] c by (simp add: dispatch_peak)
  moreover have "peak_workers w2 = (if js = [] then peak_workers w1 else max (peak_workers w1) 1)"
    using Cons.IH [of w1] f by simp
  ultimately show ?case using c f by auto
qed

lemma imap_unordered_peak_bound:
  "length running \<le> pool \<Longrightarrow>
   peak_workers (snd (imap_unordered env pool sched pending running w)) \<le> max (peak_workers w) pool"
proof (induction sched arbitrary: pending running w)
  case Nil
  obtain rs w1 where f: "finish_all env running w = (rs, w1)" by (cases "finish_all env running w")
  obtain rs' w2 where o: "one_by_one env pending w1 = (rs', w2)" by (cases "one_by_one env pending w1")
  have p1: "peak_workers w1 = peak_workers w" using finish_all_peak [of env running w] f by simp
  have "peak_workers w2 \<le> max (peak_workers w1) 1"
    using one_by_one_peak [of env pending w1] o by (simp split: if_splits)
  then show ?case using f o p1 by (cases "pool = 0") auto
next
  case (Cons ev sched)
  note IH = Cons.IH
  show ?case
  proof (cases ev)
    case Dispatch
    show ?thesis
    proof (cases pending)
      case Nil
      then show ?thesis using Dispatch IH [OF Cons.prems, of "[]" w] by simp
    next
      case (Cons j js)
      show ?thesis
      proof (cases "length running < pool")
        case True
        then have "length (running @ [j]) \<le> pool" by simp
        from IH [OF this, of js "dispatch j (length running) w"]
        have "peak_workers (snd (imap_unordered env pool sched js (running @ [j]) (dispatch j (length running) w)))
            \<le> max (max (peak_workers w) (Suc (length running))) pool"
          by (simp add: dispatch_peak)
        then show ?thesis using Dispatch Cons True by simp
      next
        case False
        then show ?thesis using Dispatch Cons IH [OF \<open>length running \<le> pool\<close>, of pending w] by simp
      qed
    qed
  next
    case (Complete i)
    show ?thesis
    proof (cases "i < length running")
      case True
      let ?rest = "take i running @ drop (Suc i) running"
      obtain r w1 where c: "complete env (running ! i) w = (r, w1)"
        by (cases "complete env (running ! i) w")
      obtain rs w2 where f: "imap_unordered env pool sched pending ?rest w1 = (rs, w2)"
        by (cases "imap_unordered env pool sched pending ?rest w1")
      have p1: "peak_workers w1 = peak_workers w" using complete_peak [of env "running ! i" w] c by simp
      have "length ?rest \<le> pool" using Cons.prems True by simp
      from IH [OF this, of pending w1] f p1 have "peak_workers w2 \<le> max (peak_workers w) pool" by simp
      then show ?thesis using Complete True c f by simp
    next
      case False
      then show ?thesis using Complete IH [OF Cons.prems, of pending w] by simp
    qed
  qed
qed

lemma dispatch_skipped_when_full:
  "pool \<le> length running \<Longrightarrow>
   imap_unordered env pool (replicate m Dispatch) pending running w
     = imap_unordered env pool [] pending running w"
proof (induction m)
  case 0
  then show ?case by simp
next
  case (Suc m)
  then show ?case by (cases pending) simp_all
qed

lemma drained_peak:
  assumes "0 < pool"
  shows "peak_workers (snd (imap_unordered env pool [] pending running w))
     = (if pending = [] then peak_workers w else max (peak_workers w) 1)"
proof -
  obtain rs w1 where f: "finish_all env running w = (rs, w1)" by (cases "finish_all env running w")
  obtain rs' w2 where o: "one_by_one env pending w1 = (rs', w2)" by (cases "one_by_one env pending w1")
  have p1: "peak_workers w1 = peak_workers w" using finish_all_peak [of env running w] f by simp
  have "peak_workers w2 = (if pending = [] then peak_workers w1 else max (peak_workers w1) 1)"
    using one_by_one_peak [of env pending w1] o by simp
  then show ?thesis using assms f o p1 by simp
qed

lemma imap_unordered_eager_peak:
  "0 < pool \<Longrightarrow> length running \<le> pool \<Longrightarrow> length running \<le> peak_workers w
     \<Longrightarrow> length pending \<le> m \<Longrightarrow>
   peak_workers (snd (imap_unordered env pool (replicate m Dispatch) pending running w))
     = max (peak_workers w) (min (length running + length pending) pool)"
proof (induction m arbitrary: pending running w)
  case 0
  then have "pending = []" by simp
  then show ?case using 0 drained_peak [OF 0(1), of env "[]" running w] by simp
next
  case (Suc m)
  show ?case
  proof (cases pending)
    case Nil
    have "peak_workers (snd (imap_unordered env pool (replicate m Dispatch) [] running w))
        = max (peak_workers w) (min (length running + length ([] :: job list)) pool)"
      using Suc.prems by (intro Suc.IH) simp_all
    then show ?thesis using Nil by simp
  next
    case (Cons j js)
    show ?thesis
    proof (cases "length running < pool")
      case True
      have step: "imap_unordered env pool (replicate (Suc m) Dispatch) pending running w
          = imap_unordered env pool (replicate m Dispatch) js (running @ [j]) (dispatch j (length running) w)"
        using Cons True by simp
      have "peak_workers (snd (imap_unordered env pool (replicate m Dispatch) js (running @ [j])
                (dispatch j (length running) w)))
          = max (peak_workers (dispatch j (length running) w))
                (min (length (running @ [j]) + length js) pool)"
      proof (intro Suc.IH)
        show "0 < pool" by (rule Suc.prems(1))
        show "length (running @ [j]) \<le> pool" using True by simp
        show "length (running @ [j]) \<le> peak_workers (dispatch j (length running) w)"
          by (simp add: dispatch_peak)
        show "length js \<le> m" using Suc.prems(4) Cons by simp
      qed
      also have "\<dots> = max (max (peak_workers w) (Suc (length running)))
                (min (Suc (length running + length js)) pool)"
        by (simp add: dispatch_peak)
      also have "\<dots> = max (peak_workers w) (min (length running + length pending) pool)"
        using True Cons by simp
      finally show ?thesis unfolding step .
    next
      case False
      then have full: "pool \<le> length running" by simp
      then have eq: "length running = pool" using Suc.prems(2) by simp
      have "peak_workers (snd (imap_unordered env pool (replicate (Suc m) Dispatch) pending running w))
          = max (peak_workers w) 1"
        unfolding dispatch_skipped_when_full [OF full] using drained_peak [OF Suc.prems(1)] Cons by simp
      also have "\<dots> = max (peak_workers w) (min (length running + length pending) pool)"
        using eq Suc.prems(1,3) by simp
      finally show ?thesis .
    qed
  qed
qed

section \<open>Properties of the call\<close>

lemma iterrows_labels: "map fst (iterrows df) = index df"
proof -
  have "map fst (iterrows df) = map snd (enumerate 0 (index df))"
    unfolding iterrows_def map_map by (rule list.map_cong0) auto
  then show ?thesis by simp
qed

lemma plan_row_index:
  "plan_row env df opts (idx, row) = Inr (url, path, info) \<Longrightarrow> info_index info = idx"
  unfolding plan_row_def by (simp split: sum.splits add: Let_def) auto

lemma plan_rows_labels:
  "plan_rows env df opts rows = Inr requests
     \<Longrightarrow> map (\<lambda>(url, path, info). info_index info) requests = map fst rows"
proof (induction rows arbitrary: requests)
  case Nil
  then show ?case by simp
next
  case (Cons r rows)
  obtain idx row where r: "r = (idx, row)" by (cases r)
  from Cons.prems obtain j js where j: "plan_row env df opts r = Inr j"
    and js: "plan_rows env df opts rows = Inr js" and req: "requests = j # js"
    by (auto split: sum.splits)
  obtain url path info where jj: "j = (url, path, info)" by (cases j)
  have "info_index info = idx" using j r jj plan_row_index by simp
  with Cons.IH [OF js] req jj r show ?case by simp
qed

lemma truncate_collect_result:
  "row_info.truncate (collect_result env (i, info, ok, err)) = info"
  by (simp add: collect_result_def row_info.truncate_def)

lemmas planner_defs =
  iterrows_def plan_row_def row_get_def resolve_date_def resolve_identifier_def configured_def
  format_request_def path_join_def columns_def Let_def

lemma demo_plan:
  "plan_rows demo_env demo_locations demo_options (iterrows demo_locations) = Inr demo_requests"
  by (simp add: planner_defs demo_locations_def demo_options_def demo_requests_def demo_info_def demo_env_def)

lemma validate_issue: "validate df opts = Some e \<Longrightarrow> \<exists>i. e = ConfigurationError i"
proof -
  have g: "(if c1 then Some (ConfigurationError i1)
          else if c2 then Some (ConfigurationError i2)
          else if c3 then Some (ConfigurationError i3)
          else if c4 then Some (ConfigurationError i4)
          else if c5 then Some (ConfigurationError i5)
          else None) = Some e \<Longrightarrow> \<exists>i. e = ConfigurationError i"
    for c1 c2 c3 c4 c5 i1 i2 i3 i4 i5
    by (auto split: if_splits)
  assume "validate df opts = Some e"
  then show ?thesis unfolding validate_def by (rule g)
qed

lemma validate_columns:
  "validate df opts = None \<Longrightarrow> lat_col opts \<in> set (columns df) \<and> lon_col opts \<in> set (columns df)"
proof -
  have g: "(if c1 then Some a else b) = None \<Longrightarrow> \<not> c1" for c1 and a :: exn and b
    by (auto split: if_splits)
  assume "validate df opts = None"
  then have "\<not> (lat_col opts \<notin> set (columns df) \<or> lon_col opts \<notin> set (columns df))"
    unfolding validate_def by (rule g)
  then show ?thesis by simp
qed

lemma iterrows_complete:
  "(idx, row) \<in> set (iterrows df) \<Longrightarrow> map fst row = columns df"
  by (auto simp: iterrows_def columns_def)

lemma row_get_present:
  "map fst row = columns df \<Longrightarrow> c \<in> set (columns df) \<Longrightarrow> \<exists>v. row_get row c = Inr v"
proof -
  assume "map fst row = columns df" "c \<in> set (columns df)"
  then have "c \<in> fst ` set row" by (metis set_map)
  then obtain v where "map_of row c = Some v"
    by (metis domD dom_map_of_conv_image_fst)
  then show ?thesis by (simp add: row_get_def)
qed

lemma configured_present: "configured col df = Some c \<Longrightarrow> c \<in> set (columns df)"
  by (auto simp: configured_def split: option.splits if_splits)

lemma format_request_error:
  "format_request env opts la lo s e' = Inl e \<Longrightarrow> \<exists>t. e = TemplateError t"
  unfolding format_request_def Let_def
  by (auto split: if_splits option.splits)

lemma resolve_date_error:
  assumes "resolve_date env df row col d = Inl e" and "map fst row = columns df"
  shows "\<exists>v. e = DateParseError v"
proof (cases "configured col df")
  case None
  with assms(1) show ?thesis by (simp add: resolve_date_def)
next
  case (Some c)
  then obtain v where "row_get row c = Inr v"
    using row_get_present [OF assms(2)] configured_present by blast
  with assms(1) Some show ?thesis
    by (auto simp: resolve_date_def split: option.splits)
qed

lemma resolve_identifier_ok:
  assumes "map fst row = columns df"
  shows "\<exists>v. resolve_identifier df row col idx = Inr v"
proof (cases "configured col df")
  case None
  then show ?thesis by (simp add: resolve_identifier_def)
next
  case (Some c)
  then obtain v where "row_get row c = Inr v"
    using row_get_present [OF assms] configured_present by blast
  with Some show ?thesis by (simp add: resolve_identifier_def)
qed

lemma plan_row_error:
  assumes "plan_row env df opts (idx, row) = Inl e" and complete: "map fst row = columns df"
    and "lat_col opts \<in> set (columns df)" and "lon_col opts \<in> set (columns df)"
  shows "(\<exists>v. e = DateParseError v) \<or> (\<exists>t. e = TemplateError t)"
proof -
  obtain la where la: "row_get row (lat_col opts) = Inr la"
    using row_get_present [OF complete assms(3)] by blast
  obtain lo where lo: "row_get row (lon_col opts) = Inr lo"
    using row_get_present [OF complete assms(4)] by blast
  show ?thesis
  proof (cases "resolve_date env df row (start_col opts) (start_date opts)")
    case (Inl a)
    then have "e = a" using assms(1) la lo by (simp add: plan_row_def)
    with resolve_date_error [OF Inl complete] show ?thesis by simp
  next
    case s: (Inr s)
    show ?thesis
    proof (cases "resolve_date env df row (end_col opts) (end_date opts)")
      case (Inl a)
      then have "e = a" using assms(1) la lo s by (simp add: plan_row_def)
      with resolve_date_error [OF Inl complete] show ?thesis by simp
    next
      case t: (Inr t)
      show ?thesis
      proof (cases "format_request env opts (py_str la) (py_str lo) s t")
        case (Inl a)
        then have "e = a" using assms(1) la lo s t by (simp add: plan_row_def)
        with format_request_error [OF Inl] show ?thesis by simp
      next
        case u: (Inr u)
        obtain ident where "resolve_identifier df row (id_col opts) idx = Inr ident"
          using resolve_identifier_ok [OF complete] by blast
        with assms(1) la lo s t u show ?thesis by (simp add: plan_row_def Let_def)
      qed
    qed
  qed
qed

lemma plan_rows_error:
  assumes "plan_rows env df opts rows = Inl e"
    and "\<And>idx row. (idx, row) \<in> set rows \<Longrightarrow> map fst row = columns df"
    and "lat_col opts \<in> set (columns df)" and "lon_col opts \<in> set (columns df)"
  shows "(\<exists>v. e = DateParseError v) \<or> (\<exists>t. e = TemplateError t)"
  using assms(1,2)
proof (induction rows)
  case Nil
  then show ?case by simp
next
  case (Cons r rows)
  obtain idx row where r: "r = (idx, row)" by (cases r)
  show ?case
  proof (cases "plan_row env df opts r")
    case (Inl a)
    then have "e = a" using Cons.prems(1) by simp
    moreover have "map fst row = columns df" using Cons.prems(2) [of idx row] r by simp
    ultimately show ?thesis using plan_row_error [OF _ _ assms(3,4)] Inl r by blast
  next
    case (Inr j)
    then have rest: "plan_rows env df opts rows = Inl e"
      using Cons.prems(1) by (simp split: sum.splits)
    have "map fst row' = columns df" if "(idx', row') \<in> set rows" for idx' row'
      using that by (intro Cons.prems(2) [of idx' row']) simp
    with rest show ?thesis by (rule Cons.IH)
  qed
qed

lemma length_plan_rows:
  "plan_rows env df opts (iterrows df) = Inr requests \<Longrightarrow> length requests = length (index df)"
  using plan_rows_labels [of env df opts "iterrows df" requests] iterrows_labels [of df]
  by (metis length_map)

lemma makedirs_cases:
  "makedirs env path w = (Inl e, w1) \<Longrightarrow> \<exists>m. e = FolderError m"
  "makedirs_error env path = None \<Longrightarrow> \<exists>w1. makedirs env path w = (Inr (), w1)"
  by (auto simp: makedirs_def split: option.splits)

lemma Pool_cases:
  "Pool n = Inl e \<Longrightarrow> e = PoolSizeError n \<and> n < 1"
  "1 \<le> n \<Longrightarrow> \<exists>k. Pool n = Inr k"
  by (auto simp: Pool_def split: if_splits)

lemma outcome_of_collect_result:
  "(\<lambda>r. (row_info.truncate r, success r, error r)) (collect_result env (i, info, ok, err)) = (info, ok, err)"
  by (simp add: collect_result_def row_info.truncate_def)

lemma results_of_collected:
  "map (\<lambda>r. (row_info.truncate r, success r, error r)) (map (collect_result env) (enumerate n results))
     = results"
proof (induction results arbitrary: n)
  case Nil
  then show ?case by simp
next
  case (Cons a results)
  obtain info ok err where a: "a = (info, ok, err)" by (cases a)
  have "(row_info.truncate (collect_result env (n, info, ok, err)),
         success (collect_result env (n, info, ok, err)),
         error (collect_result env (n, info, ok, err))) = (info, ok, err)"
    using outcome_of_collect_result [of env n info ok err] by simp
  then show ?case using Cons.IH [of "Suc n"] a by simp
qed

lemma run_pool_results:
  assumes "0 < pool"
  shows "mset (map (\<lambda>r. (row_info.truncate r, success r, error r)) (fst (run_pool env pool sched requests w1)))
     = mset (map (verdict env w) requests)"
proof -
  obtain results w' where r: "imap_unordered env pool sched requests [] w1 = (results, w')"
    by (cases "imap_unordered env pool sched requests [] w1")
  have ms: "mset results = mset (map (verdict env w) requests)"
    using imap_unordered_results [OF assms, of env sched requests "[]" w1 w] r by simp
  have "fst (run_pool env pool sched requests w1) = map (collect_result env) (enumerate 1 results)"
    using r by (simp add: run_pool_def)
  then have "map (\<lambda>r. (row_info.truncate r, success r, error r)) (fst (run_pool env pool sched requests w1))
      = results"
    by (simp only: results_of_collected)
  then show ?thesis using ms by (simp only:)
qed

lemma verdict_info: "fst (verdict env w (url, path, info)) = info"
  by (simp add: verdict_def download_function_def split: prod.splits sum.splits)

lemma run_pool_infos:
  assumes "0 < pool"
  shows "mset (map row_info.truncate (fst (run_pool env pool sched requests w1)))
     = mset (map (\<lambda>(url, path, info). info) requests)"
proof -
  have "map row_info.truncate outs = map fst (map (\<lambda>r. (row_info.truncate r, success r, error r)) outs)"
    for outs :: "outcome list"
    by simp
  then have "mset (map row_info.truncate (fst (run_pool env pool sched requests w1)))
      = image_mset fst (mset (map (\<lambda>r. (row_info.truncate r, success r, error r))
                                   (fst (run_pool env pool sched requests w1))))"
    by (metis mset_map)
  also have "\<dots> = image_mset fst (mset (map (verdict env w1) requests))"
    using run_pool_results [OF assms, of env sched requests w1 w1] by simp
  also have "\<dots> = mset (map (\<lambda>(url, path, info). info) requests)"
  proof -
    have "map fst (map (verdict env w1) requests) = map (\<lambda>(url, path, info). info) requests"
      by (induction requests) (auto simp: verdict_info)
    then show ?thesis by (metis mset_map)
  qed
  finally show ?thesis .
qed

lemma length_run_pool:
  assumes "0 < pool"
  shows "length (fst (run_pool env pool sched requests w)) = length requests"
proof -
  have "size (mset (map row_info.truncate (fst (run_pool env pool sched requests w))))
      = size (mset (map (\<lambda>(url, path, info). info) requests))"
    using run_pool_infos [OF assms, of env sched requests w] by simp
  then show ?thesis by simp
qed

lemma run_pool_peak_bound:
  "peak_workers (snd (run_pool env pool sched requests w)) \<le> max (peak_workers w) pool"
proof -
  obtain results w' where r: "imap_unordered env pool sched requests [] w = (results, w')"
    by (cases "imap_unordered env pool sched requests [] w")
  have "peak_workers w' \<le> max (peak_workers w) pool"
    using imap_unordered_peak_bound [of "[]" pool env sched requests w] r by simp
  then show ?thesis using r by (simp add: run_pool_def)
qed

lemma run_pool_eager_peak:
  assumes "0 < pool"
  shows "peak_workers (snd (run_pool env pool (replicate (length requests) Dispatch) requests w))
     = max (peak_workers w) (min (length requests) pool)"
proof -
  obtain results w' where
    r: "imap_unordered env pool (replicate (length requests) Dispatch) requests [] w = (results, w')"
    by (cases "imap_unordered env pool (replicate (length requests) Dispatch) requests [] w")
  have "peak_workers w' = max (peak_workers w) (min (length ([] :: job list) + length requests) pool)"
    using imap_unordered_eager_peak [OF assms, of "[]" w requests "length requests" env] r by simp
  then show ?thesis using r by (simp add: run_pool_def)
qed

lemma makedirs_peak: "peak_workers (snd (makedirs env path w)) = peak_workers w"
  by (simp add: makedirs_def split: option.splits)

lemma reduce_results_peak: "peak_workers (snd (reduce_results dr opts w)) = peak_workers w"
  by (simp add: reduce_results_def consolidate_csv_data_def split: sum.splits prod.splits)

lemma reduce_results_eq:
  assumes "download_results \<noteq> []"
  shows "reduce_results download_results opts w =
     (if return_consolidated opts \<and> (\<exists>r\<in>set download_results. success r) then
        (Inr (Climate
           (if readable_tables w (output_folder opts) (filter success download_results) = []
            then \<lparr>index_name = None, index = [], cols = []\<rparr>
            else concat_frames
                   (readable_tables w (output_folder opts) (filter success download_results)))),
         w\<lparr>diagnostics := diagnostics w
              @ read_failures w (output_folder opts) (filter success download_results)\<rparr>)
      else (Inr (Results download_results), w))"
proof -
  have col: "success_column download_results = Inr (map success download_results)"
    using assms by (simp add: success_column_def)
  have any: "True \<in> set (map success download_results) \<longleftrightarrow> (\<exists>r\<in>set download_results. success r)"
    by auto
  show ?thesis
    using col any by (simp add: reduce_results_def consolidate_csv_data_def read_back_eq)
qed

lemma collect_outcomes_ok:
  assumes v: "validate df opts = None" and m: "makedirs_error env (output_folder opts) = None"
    and p: "plan_rows env df opts (iterrows df) = Inr requests" and k: "1 \<le> processes opts"
  shows "collect_outcomes env sched df opts w =
     (Inr (requests,
           fst (run_pool env (nat (min (processes opts) 5)) sched requests
                  (snd (makedirs env (output_folder opts) w)))),
      snd (run_pool env (nat (min (processes opts) 5)) sched requests
             (snd (makedirs env (output_folder opts) w))))"
proof -
  obtain w1 where mk: "makedirs env (output_folder opts) w = (Inr (), w1)"
    using makedirs_cases(2) [OF m] by blast
  have pool: "Pool (capped_processes (processes opts)) = Inr (nat (min (processes opts) 5))"
    using k by (simp add: Pool_def capped_processes_def)
  show ?thesis
    using v mk p pool by (simp add: collect_outcomes_def split: prod.splits)
qed

lemmas pool_defs =
  run_pool_def collect_result_def Pool_def capped_processes_def makedirs_def validate_def
  dispatch_def complete_def

lemma demo_valid: "validate demo_locations demo_options = None"
  by (simp add: validate_def columns_def demo_locations_def demo_options_def)

lemma demo_verdicts:
  "map (verdict demo_env demo_world) demo_requests
     = [(demo_info, True, None),
        (\<lparr>info_index = Number ''1'', info_latitude = Number ''20.1'', info_longitude = Number ''-99.0'',
          info_start_date = Some ''20150101'', info_end_date = Some ''20150102'',
          info_identifier = Text ''idx_1'', info_filename = ''idx_1.csv''\<rparr>,
         False, Some ''ReadTimeout'')]"
  by (simp add: verdict_def worker_defs demo_defs demo_requests_def demo_info_def demo_world_def)

lemma crowd_plan:
  "\<exists>requests. plan_rows demo_env demo_crowd demo_options (iterrows demo_crowd) = Inr requests
      \<and> length requests = 6"
  by (simp add: planner_defs demo_crowd_def demo_options_def demo_env_def)

text \<open>
  C1, as the code has it. For every call whose options pass the validation, whose output
  folder can be created, whose rows are all planned (every date parses and the URL can be
  formatted) and that asks for at least one process, whatever the order in which the
  workers start and finish: the call collects one outcome per job and plans one job per
  row, in the order of the rows and each carrying its row's label; the \<open>row_info\<close> of the
  outcomes are those of the jobs, each once; and the call returns what lines 237-255 make
  of these outcomes.
\<close>

theorem one_outcome_per_row:
  assumes "validate df opts = None" and "makedirs_error env (output_folder opts) = None"
    and "plan_rows env df opts (iterrows df) = Inr requests" and "1 \<le> processes opts"
  shows "\<exists>outs w2. collect_outcomes env sched df opts w = (Inr (requests, outs), w2)
    \<and> download_nasa_power_data env sched df opts w = reduce_results outs opts w2
    \<and> length outs = length requests
    \<and> length requests = length (index df)
    \<and> map (\<lambda>(url, path, info). info_index info) requests = index df
    \<and> mset (map row_info.truncate outs) = mset (map (\<lambda>(url, path, info). info) requests)"
proof -
  let ?pool = "nat (min (processes opts) 5)"
  let ?w1 = "snd (makedirs env (output_folder opts) w)"
  let ?outs = "fst (run_pool env ?pool sched requests ?w1)"
  let ?w2 = "snd (run_pool env ?pool sched requests ?w1)"
  have pos: "0 < ?pool" using assms(4) by simp
  have c: "collect_outcomes env sched df opts w = (Inr (requests, ?outs), ?w2)"
    using assms by (rule collect_outcomes_ok)
  then have d: "download_nasa_power_data env sched df opts w = reduce_results ?outs opts ?w2"
    by (simp add: download_nasa_power_data_def)
  have l1: "length ?outs = length requests" using pos by (rule length_run_pool)
  have l2: "length requests = length (index df)" using assms(3) by (rule length_plan_rows)
  have lab: "map (\<lambda>(url, path, info). info_index info) requests = index df"
    using plan_rows_labels [OF assms(3)] by (simp add: iterrows_labels)
  have ms: "mset (map row_info.truncate ?outs) = mset (map (\<lambda>(url, path, info). info) requests)"
    using pos by (rule run_pool_infos)
  from c d l1 l2 lab ms show ?thesis by blast
qed

theorem one_outcome_per_row_witness:
  "validate demo_locations demo_options = None
   \<and> makedirs_error demo_env (output_folder demo_options) = None
   \<and> plan_rows demo_env demo_locations demo_options (iterrows demo_locations) = Inr demo_requests
   \<and> 1 \<le> processes demo_options
   \<and> (\<exists>outs w2. collect_outcomes demo_env [Dispatch, Dispatch, Complete 1] demo_locations demo_options demo_world
                   = (Inr (demo_requests, outs), w2)
        \<and> length outs = 2 \<and> length demo_requests = 2 \<and> length (index demo_locations) = 2
        \<and> mset (map info_index outs) = {#Number ''0'', Number ''1''#})"
proof -
  have m: "makedirs_error demo_env (output_folder demo_options) = None"
    by (simp add: demo_env_def)
  have k: "1 \<le> processes demo_options" by (simp add: demo_options_def)
  have n: "length demo_requests = 2" by (simp add: demo_requests_def)
  have i: "map (\<lambda>x. info_index (case x of (url, path, info) \<Rightarrow> info)) demo_requests = [Number ''0'', Number ''1'']"
    by (simp add: demo_requests_def demo_info_def)
  from one_outcome_per_row [OF demo_valid m demo_plan k, where sched = "[Dispatch, Dispatch, Complete 1]" and w = demo_world]
  obtain outs w2 where
    c: "collect_outcomes demo_env [Dispatch, Dispatch, Complete 1] demo_locations demo_options demo_world
          = (Inr (demo_requests, outs), w2)"
    and l1: "length outs = length demo_requests"
    and l2: "length demo_requests = length (index demo_locations)"
    and ms: "mset (map row_info.truncate outs) = mset (map (\<lambda>(url, path, info). info) demo_requests)"
    by (elim exE conjE) (rule that, assumption+)
  have "map info_index outs = map info_index (map row_info.truncate outs)"
    by (simp add: row_info.truncate_def)
  then have "mset (map info_index outs) = image_mset info_index (mset (map row_info.truncate outs))"
    by (metis mset_map)
  also have "\<dots> = image_mset info_index (mset (map (\<lambda>(url, path, info). info) demo_requests))"
    by (simp only: ms)
  also have "\<dots> = {#Number ''0'', Number ''1''#}"
    using i by (simp add: demo_requests_def demo_info_def)
  finally have idx: "mset (map info_index outs) = {#Number ''0'', Number ''1''#}" .
  have l3: "length (index demo_locations) = 2" using l2 n by simp
  have l4: "length outs = 2" using l1 n by simp
  from c l4 n l3 idx
  have "\<exists>outs w2. collect_outcomes demo_env [Dispatch, Dispatch, Complete 1] demo_locations demo_options demo_world
                   = (Inr (demo_requests, outs), w2)
        \<and> length outs = 2 \<and> length demo_requests = 2 \<and> length (index demo_locations) = 2
        \<and> mset (map info_index outs) = {#Number ''0'', Number ''1''#}"
    by blast
  with demo_valid m demo_plan k show ?thesis by (intro conjI)
qed

text \<open>
  The claim as written fails: a table and options that pass the validation, with zero
  processes asked for, plan two jobs and collect no outcome, since
  \<open>multiprocessing.Pool(0)\<close> raises once the folder is created and the jobs are planned.
\<close>

theorem no_pool_counterexample:
  "validate demo_locations (demo_options\<lparr>processes := 0\<rparr>) = None
   \<and> plan_rows demo_env demo_locations (demo_options\<lparr>processes := 0\<rparr>) (iterrows demo_locations)
       = Inr demo_requests
   \<and> length demo_requests = 2
   \<and> collect_outcomes demo_env [] demo_locations (demo_options\<lparr>processes := 0\<rparr>) demo_world
       = (Inl (PoolSizeError 0), demo_world\<lparr>folders := [''out'']\<rparr>)
   \<and> download_nasa_power_data demo_env [] demo_locations (demo_options\<lparr>processes := 0\<rparr>) demo_world
       = (Inl (PoolSizeError 0), demo_world\<lparr>folders := [''out'']\<rparr>)"
proof -
  have v: "validate demo_locations (demo_options\<lparr>processes := 0\<rparr>) = None"
    by (simp add: validate_def columns_def demo_locations_def demo_options_def)
  have p: "plan_rows demo_env demo_locations (demo_options\<lparr>processes := 0\<rparr>) (iterrows demo_locations)
       = Inr demo_requests"
    by (simp add: planner_defs demo_locations_def demo_options_def demo_requests_def demo_info_def demo_env_def)
  have n: "length demo_requests = 2" by (simp add: demo_requests_def)
  have m: "makedirs demo_env (output_folder (demo_options\<lparr>processes := 0\<rparr>)) demo_world
      = (Inr (), demo_world\<lparr>folders := [''out'']\<rparr>)"
    by (simp add: makedirs_def demo_env_def demo_world_def demo_options_def)
  have k: "Pool (capped_processes (processes (demo_options\<lparr>processes := 0\<rparr>))) = Inl (PoolSizeError 0)"
    by (simp add: Pool_def capped_processes_def)
  have c: "collect_outcomes demo_env [] demo_locations (demo_options\<lparr>processes := 0\<rparr>) demo_world
       = (Inl (PoolSizeError 0), demo_world\<lparr>folders := [''out'']\<rparr>)"
    unfolding collect_outcomes_def by (simp only: v m p k option.case sum.case prod.case)
  then have "download_nasa_power_data demo_env [] demo_locations (demo_options\<lparr>processes := 0\<rparr>) demo_world
       = (Inl (PoolSizeError 0), demo_world\<lparr>folders := [''out'']\<rparr>)"
    by (simp add: download_nasa_power_data_def)
  with v p n c show ?thesis by (intro conjI)
qed

text \<open>
  C6. Whatever the number of processes asked for and the order of the events, a call
  never has more than \<open>min(processes, 5)\<close> workers at work at a time, which is at most 5;
  and the bound is reached: when every job is handed out before any answer arrives,
  the workers at work are as many as the jobs, up to \<open>min(processes, 5)\<close>. Asking for 12
  processes on six locations puts 5 workers at work.
\<close>

theorem pool_size_capped:
  "peak_workers (snd (download_nasa_power_data env sched df opts w))
      \<le> max (peak_workers w) (nat (min (processes opts) 5))
   \<and> nat (min (processes opts) 5) \<le> 5
   \<and> (validate df opts = None \<and> makedirs_error env (output_folder opts) = None
        \<and> plan_rows env df opts (iterrows df) = Inr requests \<and> 1 \<le> processes opts \<longrightarrow>
      peak_workers (snd (download_nasa_power_data env (replicate (length requests) Dispatch) df opts w))
        = max (peak_workers w) (min (length requests) (nat (min (processes opts) 5))))"
proof (intro conjI impI)
  let ?pool = "nat (min (processes opts) 5)"
  show "?pool \<le> 5" by simp
  show "peak_workers (snd (download_nasa_power_data env sched df opts w)) \<le> max (peak_workers w) ?pool"
  proof (cases "validate df opts")
    case (Some e)
    then show ?thesis by (simp add: download_nasa_power_data_def collect_outcomes_def)
  next
    case None
    obtain r1 w1 where m: "makedirs env (output_folder opts) w = (r1, w1)"
      by (cases "makedirs env (output_folder opts) w")
    have p1: "peak_workers w1 = peak_workers w" using makedirs_peak [of env "output_folder opts" w] m by simp
    show ?thesis
    proof (cases r1)
      case (Inl e)
      then show ?thesis using None m p1 by (simp add: download_nasa_power_data_def collect_outcomes_def)
    next
      case (Inr u)
      show ?thesis
      proof (cases "plan_rows env df opts (iterrows df)")
        case (Inl e)
        then show ?thesis using None m Inr p1
          by (simp add: download_nasa_power_data_def collect_outcomes_def)
      next
        case requests: (Inr reqs)
        show ?thesis
        proof (cases "Pool (capped_processes (processes opts))")
          case (Inl e)
          then show ?thesis using None m Inr requests p1
            by (simp add: download_nasa_power_data_def collect_outcomes_def)
        next
          case pool: (Inr pool)
          then have size: "pool = ?pool"
            by (simp add: Pool_def capped_processes_def split: if_splits)
          obtain dr w2 where r: "run_pool env pool sched reqs w1 = (dr, w2)"
            by (cases "run_pool env pool sched reqs w1")
          have "peak_workers w2 \<le> max (peak_workers w1) pool"
            using run_pool_peak_bound [of env pool sched reqs w1] r by simp
          moreover have "download_nasa_power_data env sched df opts w = reduce_results dr opts w2"
            using None m Inr requests pool r
            by (simp add: download_nasa_power_data_def collect_outcomes_def)
          ultimately show ?thesis using p1 size by (simp add: reduce_results_peak)
        qed
      qed
    qed
  qed
  show "peak_workers (snd (download_nasa_power_data env (replicate (length requests) Dispatch) df opts w))
        = max (peak_workers w) (min (length requests) ?pool)"
    if ok: "validate df opts = None \<and> makedirs_error env (output_folder opts) = None
        \<and> plan_rows env df opts (iterrows df) = Inr requests \<and> 1 \<le> processes opts"
  proof -
    let ?w1 = "snd (makedirs env (output_folder opts) w)"
    let ?sched = "replicate (length requests) Dispatch"
    from ok have v: "validate df opts = None" and m: "makedirs_error env (output_folder opts) = None"
      and p: "plan_rows env df opts (iterrows df) = Inr requests" and k: "1 \<le> processes opts"
      by simp_all
    have pos: "0 < ?pool" using k by simp
    have "collect_outcomes env ?sched df opts w =
        (Inr (requests, fst (run_pool env ?pool ?sched requests ?w1)), snd (run_pool env ?pool ?sched requests ?w1))"
      using v m p k by (rule collect_outcomes_ok)
    then have "download_nasa_power_data env ?sched df opts w
        = reduce_results (fst (run_pool env ?pool ?sched requests ?w1)) opts (snd (run_pool env ?pool ?sched requests ?w1))"
      by (simp add: download_nasa_power_data_def)
    then have "peak_workers (snd (download_nasa_power_data env ?sched df opts w))
        = peak_workers (snd (run_pool env ?pool ?sched requests ?w1))"
      by (simp add: reduce_results_peak)
    also have "\<dots> = max (peak_workers ?w1) (min (length requests) ?pool)"
      using pos by (rule run_pool_eager_peak)
    also have "\<dots> = max (peak_workers w) (min (length requests) ?pool)"
      by (simp add: makedirs_peak)
    finally show ?thesis .
  qed
qed

theorem pool_size_capped_witness:
  "validate demo_crowd demo_options = None
   \<and> makedirs_error demo_env (output_folder demo_options) = None
   \<and> (\<exists>requests. plan_rows demo_env demo_crowd demo_options (iterrows demo_crowd) = Inr requests
         \<and> length requests = 6)
   \<and> 1 \<le> processes demo_options \<and> processes demo_options = 12
   \<and> peak_workers (snd (download_nasa_power_data demo_env (replicate 6 Dispatch) demo_crowd
                            demo_options demo_world)) = 5"
proof -
  have v: "validate demo_crowd demo_options = None"
    by (simp add: validate_def columns_def demo_crowd_def demo_options_def)
  have m: "makedirs_error demo_env (output_folder demo_options) = None"
    by (simp add: demo_env_def)
  have k: "1 \<le> processes demo_options" and k12: "processes demo_options = 12"
    by (simp_all add: demo_options_def)
  obtain requests where p: "plan_rows demo_env demo_crowd demo_options (iterrows demo_crowd) = Inr requests"
    and n: "length requests = 6"
    using crowd_plan by (elim exE conjE) (rule that, assumption+)
  have ok: "validate demo_crowd demo_options = None
      \<and> makedirs_error demo_env (output_folder demo_options) = None
      \<and> plan_rows demo_env demo_crowd demo_options (iterrows demo_crowd) = Inr requests
      \<and> 1 \<le> processes demo_options"
    using v m p k by (intro conjI)
  from pool_size_capped [of demo_env "[]" demo_crowd demo_options demo_world requests,
      THEN conjunct2, THEN conjunct2, THEN mp, OF ok]
  have "peak_workers (snd (download_nasa_power_data demo_env (replicate (length requests) Dispatch)
            demo_crowd demo_options demo_world))
      = max (peak_workers demo_world) (min (length requests) (nat (min (processes demo_options) 5)))" .
  then have "peak_workers (snd (download_nasa_power_data demo_env (replicate 6 Dispatch) demo_crowd
                            demo_options demo_world)) = 5"
    by (simp add: n k12 demo_world_def)
  with v m crowd_plan k k12 show ?thesis by (intro conjI)
qed

text \<open>
  C8, as the code has it. On a table with at least one row, the call raises only the
  \<open>ValueError\<close> of the validation (with the world untouched), the error of
  \<open>os.makedirs\<close>, the error of a row's date that does not parse, the error of formatting
  the URL, or the error of a pool of fewer than one process. When the options are valid,
  the folder can be created, every row is planned and at least one process is asked for,
  the call returns whatever happens to the requests and the files: the outcomes are one
  per row, their \<open>success\<close> and \<open>error\<close> are what the worker returned for each job, so that
  a worker's failure is a row with success false and its message; without consolidation,
  or when no worker succeeded, the call returns the table of these outcomes; otherwise it
  returns the tables read back from the files of the successful outcomes, a file that
  cannot be read being passed over with a message.
\<close>

theorem call_raises_only_while_planning:
  assumes rows: "index df \<noteq> []"
  shows "(\<forall>e w'. download_nasa_power_data env sched df opts w = (Inl e, w') \<longrightarrow>
            (\<exists>i. e = ConfigurationError i \<and> validate df opts = Some e \<and> w' = w)
          \<or> (\<exists>m. e = FolderError m)
          \<or> (\<exists>v. e = DateParseError v)
          \<or> (\<exists>t. e = TemplateError t)
          \<or> (\<exists>n. e = PoolSizeError n \<and> processes opts < 1))
    \<and> (validate df opts = None \<and> makedirs_error env (output_folder opts) = None
          \<and> plan_rows env df opts (iterrows df) = Inr requests
          \<and> 1 \<le> processes opts \<longrightarrow>
         (\<exists>outs w2. collect_outcomes env sched df opts w = (Inr (requests, outs), w2)
            \<and> length outs = length (index df)
            \<and> mset (map (\<lambda>r. (row_info.truncate r, success r, error r)) outs)
                = mset (map (verdict env w) requests)
            \<and> download_nasa_power_data env sched df opts w =
                (if return_consolidated opts \<and> (\<exists>r\<in>set outs. success r) then
                   (Inr (Climate
                      (if readable_tables w2 (output_folder opts) (filter success outs) = []
                       then \<lparr>index_name = None, index = [], cols = []\<rparr>
                       else concat_frames
                              (readable_tables w2 (output_folder opts) (filter success outs)))),
                    w2\<lparr>diagnostics := diagnostics w2
                         @ read_failures w2 (output_folder opts) (filter success outs)\<rparr>)
                 else (Inr (Results outs), w2))))"
proof (intro conjI allI impI)
  show "(\<exists>i. e = ConfigurationError i \<and> validate df opts = Some e \<and> w' = w)
          \<or> (\<exists>m. e = FolderError m)
          \<or> (\<exists>v. e = DateParseError v)
          \<or> (\<exists>t. e = TemplateError t)
          \<or> (\<exists>n. e = PoolSizeError n \<and> processes opts < 1)"
    if call: "download_nasa_power_data env sched df opts w = (Inl e, w')" for e w'
  proof (cases "validate df opts")
    case (Some e0)
    then have "download_nasa_power_data env sched df opts w = (Inl e0, w)"
      by (simp add: download_nasa_power_data_def collect_outcomes_def)
    with call have "e = e0" "w' = w" by simp_all
    with Some validate_issue [OF Some] show ?thesis by auto
  next
    case None
    note cols = validate_columns [OF None]
    obtain r1 w1 where m: "makedirs env (output_folder opts) w = (r1, w1)"
      by (cases "makedirs env (output_folder opts) w")
    show ?thesis
    proof (cases r1)
      case (Inl e1)
      then have "download_nasa_power_data env sched df opts w = (Inl e1, w1)"
        using None m by (simp add: download_nasa_power_data_def collect_outcomes_def)
      with call have "e = e1" by simp
      with makedirs_cases(1) [of env "output_folder opts" w e1 w1] m Inl show ?thesis by auto
    next
      case (Inr u)
      show ?thesis
      proof (cases "plan_rows env df opts (iterrows df)")
        case (Inl e2)
        then have "download_nasa_power_data env sched df opts w = (Inl e2, w1)"
          using None m Inr by (simp add: download_nasa_power_data_def collect_outcomes_def)
        with call have "e = e2" by simp
        moreover have "(\<exists>v. e2 = DateParseError v) \<or> (\<exists>t. e2 = TemplateError t)"
          using Inl
        proof (rule plan_rows_error)
          show "map fst row = columns df" if "(idx, row) \<in> set (iterrows df)" for idx row
            using that by (rule iterrows_complete)
          show "lat_col opts \<in> set (columns df)" using cols by simp
          show "lon_col opts \<in> set (columns df)" using cols by simp
        qed
        ultimately show ?thesis by auto
      next
        case planned: (Inr reqs)
        show ?thesis
        proof (cases "Pool (capped_processes (processes opts))")
          case (Inl e3)
          then have "download_nasa_power_data env sched df opts w = (Inl e3, w1)"
            using None m Inr planned by (simp add: download_nasa_power_data_def collect_outcomes_def)
          with call have "e = e3" by simp
          moreover have "e3 = PoolSizeError (capped_processes (processes opts))"
            and "capped_processes (processes opts) < 1"
            using Pool_cases(1) [OF Inl] by simp_all
          moreover from this(2) have "processes opts < 1"
            by (simp add: capped_processes_def)
          ultimately show ?thesis by auto
        next
          case pool: (Inr pool)
          then have pos: "0 < pool" by (simp add: Pool_def split: if_splits)
          obtain dr w2 where r: "run_pool env pool sched reqs w1 = (dr, w2)"
            by (cases "run_pool env pool sched reqs w1")
          have "length dr = length reqs"
            using length_run_pool [OF pos, of env sched reqs w1] r by simp
          then have "length dr = length (index df)"
            using length_plan_rows [OF planned] by simp
          then have "dr \<noteq> []" using rows by auto
          then have "\<exists>t w3. reduce_results dr opts w2 = (Inr t, w3)"
            by (simp add: reduce_results_eq)
          moreover have "download_nasa_power_data env sched df opts w = reduce_results dr opts w2"
            using None m Inr planned pool r
            by (simp add: download_nasa_power_data_def collect_outcomes_def)
          ultimately show ?thesis using call by auto
        qed
      qed
    qed
  qed
  show "\<exists>outs w2. collect_outcomes env sched df opts w = (Inr (requests, outs), w2)
            \<and> length outs = length (index df)
            \<and> mset (map (\<lambda>r. (row_info.truncate r, success r, error r)) outs)
                = mset (map (verdict env w) requests)
            \<and> download_nasa_power_data env sched df opts w =
                (if return_consolidated opts \<and> (\<exists>r\<in>set outs. success r) then
                   (Inr (Climate
                      (if readable_tables w2 (output_folder opts) (filter success outs) = []
                       then \<lparr>index_name = None, index = [], cols = []\<rparr>
                       else concat_frames
                              (readable_tables w2 (output_folder opts) (filter success outs)))),
                    w2\<lparr>diagnostics := diagnostics w2
                         @ read_failures w2 (output_folder opts) (filter success outs)\<rparr>)
                 else (Inr (Results outs), w2))"
    if ok: "validate df opts = None \<and> makedirs_error env (output_folder opts) = None
          \<and> plan_rows env df opts (iterrows df) = Inr requests
          \<and> 1 \<le> processes opts"
  proof -
    let ?pool = "nat (min (processes opts) 5)"
    let ?w1 = "snd (makedirs env (output_folder opts) w)"
    let ?outs = "fst (run_pool env ?pool sched requests ?w1)"
    let ?w2 = "snd (run_pool env ?pool sched requests ?w1)"
    from ok have v: "validate df opts = None" and m: "makedirs_error env (output_folder opts) = None"
      and p: "plan_rows env df opts (iterrows df) = Inr requests" and k: "1 \<le> processes opts"
      by simp_all
    have pos: "0 < ?pool" using k by simp
    have c: "collect_outcomes env sched df opts w = (Inr (requests, ?outs), ?w2)"
      using v m p k by (rule collect_outcomes_ok)
    have "length ?outs = length requests" using pos by (rule length_run_pool)
    then have len: "length ?outs = length (index df)" using length_plan_rows [OF p] by simp
    then have ne: "?outs \<noteq> []" using rows by auto
    have ms: "mset (map (\<lambda>r. (row_info.truncate r, success r, error r)) ?outs)
                = mset (map (verdict env w) requests)"
      using pos by (rule run_pool_results)
    have "download_nasa_power_data env sched df opts w = reduce_results ?outs opts ?w2"
      using c by (simp add: download_nasa_power_data_def)
    then have d: "download_nasa_power_data env sched df opts w =
                (if return_consolidated opts \<and> (\<exists>r\<in>set ?outs. success r) then
                   (Inr (Climate
                      (if readable_tables ?w2 (output_folder opts) (filter success ?outs) = []
                       then \<lparr>index_name = None, index = [], cols = []\<rparr>
                       else concat_frames
                              (readable_tables ?w2 (output_folder opts) (filter success ?outs)))),
                    ?w2\<lparr>diagnostics := diagnostics ?w2
                         @ read_failures ?w2 (output_folder opts) (filter success ?outs)\<rparr>)
                 else (Inr (Results ?outs), ?w2))"
      by (simp only: reduce_results_eq [OF ne])
    from c len ms d show ?thesis by blast
  qed
qed

theorem call_raises_only_while_planning_witness:
  "index demo_locations \<noteq> []
   \<and> validate demo_locations demo_options = None
   \<and> makedirs_error demo_env (output_folder demo_options) = None
   \<and> plan_rows demo_env demo_locations demo_options (iterrows demo_locations) = Inr demo_requests
   \<and> 1 \<le> processes demo_options
   \<and> (\<exists>outs w2.
         download_nasa_power_data demo_env [Dispatch, Complete 0] demo_locations demo_options demo_world
           = (Inr (Results outs), w2)
         \<and> length outs = 2
         \<and> mset (map (\<lambda>r. (info_filename r, success r, error r)) outs)
             = {#(''idx_0.csv'', True, None), (''idx_1.csv'', False, Some ''ReadTimeout'')#})"
proof -
  let ?sched = "[Dispatch, Complete 0]"
  have rows: "index demo_locations \<noteq> []" by (simp add: demo_locations_def)
  have m: "makedirs_error demo_env (output_folder demo_options) = None"
    by (simp add: demo_env_def)
  have k: "1 \<le> processes demo_options" by (simp add: demo_options_def)
  have rc: "\<not> return_consolidated demo_options" by (simp add: demo_options_def)
  have n: "length (index demo_locations) = 2" by (simp add: demo_locations_def)
  have ok: "validate demo_locations demo_options = None
      \<and> makedirs_error demo_env (output_folder demo_options) = None
      \<and> plan_rows demo_env demo_locations demo_options (iterrows demo_locations) = Inr demo_requests
      \<and> 1 \<le> processes demo_options"
    using demo_valid m demo_plan k by (intro conjI)
  from call_raises_only_while_planning [OF rows, of demo_env ?sched demo_options demo_world demo_requests,
      THEN conjunct2, THEN mp, OF ok]
  obtain outs w2 where
    len: "length outs = length (index demo_locations)"
    and ms: "mset (map (\<lambda>r. (row_info.truncate r, success r, error r)) outs)
                = mset (map (verdict demo_env demo_world) demo_requests)"
    and d: "download_nasa_power_data demo_env ?sched demo_locations demo_options demo_world =
                (if return_consolidated demo_options \<and> (\<exists>r\<in>set outs. success r) then
                   (Inr (Climate
                      (if readable_tables w2 (output_folder demo_options) (filter success outs) = []
                       then \<lparr>index_name = None, index = [], cols = []\<rparr>
                       else concat_frames
                              (readable_tables w2 (output_folder demo_options) (filter success outs)))),
                    w2\<lparr>diagnostics := diagnostics w2
                         @ read_failures w2 (output_folder demo_options) (filter success outs)\<rparr>)
                 else (Inr (Results outs), w2))"
    by (elim exE conjE) (rule that, assumption+)
  have d': "download_nasa_power_data demo_env ?sched demo_locations demo_options demo_world
      = (Inr (Results outs), w2)"
    using d rc by simp
  have "map (\<lambda>r. (info_filename r, success r, error r)) outs
      = map (\<lambda>(i, ok, e). (info_filename i, ok, e)) (map (\<lambda>r. (row_info.truncate r, success r, error r)) outs)"
    by (simp add: row_info.truncate_def)
  then have "mset (map (\<lambda>r. (info_filename r, success r, error r)) outs)
      = image_mset (\<lambda>(i, ok, e). (info_filename i, ok, e))
          (mset (map (\<lambda>r. (row_info.truncate r, success r, error r)) outs))"
    by (metis mset_map)
  also have "\<dots> = image_mset (\<lambda>(i, ok, e). (info_filename i, ok, e))
          (mset (map (verdict demo_env demo_world) demo_requests))"
    by (simp only: ms)
  also have "\<dots> = {#(''idx_0.csv'', True, None), (''idx_1.csv'', False, Some ''ReadTimeout'')#}"
    by (simp add: demo_verdicts demo_info_def)
  finally have col: "mset (map (\<lambda>r. (info_filename r, success r, error r)) outs)
      = {#(''idx_0.csv'', True, None), (''idx_1.csv'', False, Some ''ReadTimeout'')#}" .
  have "length outs = 2" using len n by simp
  with d' col have "\<exists>outs w2.
         download_nasa_power_data demo_env ?sched demo_locations demo_options demo_world
           = (Inr (Results outs), w2)
         \<and> length outs = 2
         \<and> mset (map (\<lambda>r. (info_filename r, success r, error r)) outs)
             = {#(''idx_0.csv'', True, None), (''idx_1.csv'', False, Some ''ReadTimeout'')#}"
    by blast
  with rows demo_valid m demo_plan k show ?thesis by (intro conjI)
qed

text \<open>
  The claim as written fails: with valid options and a start-date column in which the
  second row holds a text that is no date, the call raises the parser's error from the
  planning loop, after the output folder has been created and before any request.
\<close>

theorem unparsed_date_counterexample:
  "validate demo_locations (demo_options\<lparr>start_col := Some ''since''\<rparr>) = None
   \<and> download_nasa_power_data demo_env [] demo_locations (demo_options\<lparr>start_col := Some ''since''\<rparr>) demo_world
       = (Inl (DateParseError (Text ''soon'')), demo_world\<lparr>folders := [''out'']\<rparr>)"
  by (simp add: download_nasa_power_data_def collect_outcomes_def pool_defs planner_defs
        demo_locations_def demo_options_def demo_env_def demo_world_def)

text \<open>
  The small run as a whole: both requests leave before any answer, the second location
  times out first, then the first is answered and its file written; the table of results
  has both, in the order the workers finished.
\<close>

lemma demo_run:
  "download_nasa_power_data demo_env [Dispatch, Dispatch, Complete 1, Complete 0] demo_locations
       demo_options demo_world
     = (Inr (Results
        [\<lparr>info_index = Number ''1'', info_latitude = Number ''20.1'', info_longitude = Number ''-99.0'',
          info_start_date = Some ''20150101'', info_end_date = Some ''20150102'',
          info_identifier = Text ''idx_1'', info_filename = ''idx_1.csv'',
          success = False, error = Some ''ReadTimeout'', downloaded_at = ''2015-03-05 12:00:00''\<rparr>,
         \<lparr>info_index = Number ''0'', info_latitude = Number ''21.9'', info_longitude = Number ''-102.3'',
          info_start_date = Some ''20150101'', info_end_date = Some ''20150102'',
          info_identifier = Text ''idx_0'', info_filename = ''idx_0.csv'',
          success = True, error = None, downloaded_at = ''2015-03-05 12:00:00''\<rparr>]),
        \<lparr>files = (\<lambda>path. None)(''out/idx_0.csv'' \<mapsto>
           Csv [(''identifier'', [Text ''idx_0'', Text ''idx_0'']),
                (''latitude'', [Number ''21.9'', Number ''21.9'']),
                (''longitude'', [Number ''-102.3'', Number ''-102.3'']),
                (''date'', [Stamp 2015 1 1, Stamp 2015 1 2]),
                (''T2M'', [Number ''12.5'', Number ''13.1''])]),
         folders = [''out''],
         requested = map fst demo_requests,
         diagnostics = [], peak_workers = 2\<rparr>)"
proof -
  let ?sched = "[Dispatch, Dispatch, Complete 1, Complete 0]"
  let ?outs = "[\<lparr>info_index = Number ''1'', info_latitude = Number ''20.1'', info_longitude = Number ''-99.0'',
          info_start_date = Some ''20150101'', info_end_date = Some ''20150102'',
          info_identifier = Text ''idx_1'', info_filename = ''idx_1.csv'',
          success = False, error = Some ''ReadTimeout'', downloaded_at = ''2015-03-05 12:00:00''\<rparr>,
         \<lparr>info_index = Number ''0'', info_latitude = Number ''21.9'', info_longitude = Number ''-102.3'',
          info_start_date = Some ''20150101'', info_end_date = Some ''20150102'',
          info_identifier = Text ''idx_0'', info_filename = ''idx_0.csv'',
          success = True, error = None, downloaded_at = ''2015-03-05 12:00:00''\<rparr>]"
  let ?w2 = "\<lparr>files = (\<lambda>path. None)(''out/idx_0.csv'' \<mapsto>
           Csv [(''identifier'', [Text ''idx_0'', Text ''idx_0'']),
                (''latitude'', [Number ''21.9'', Number ''21.9'']),
                (''longitude'', [Number ''-102.3'', Number ''-102.3'']),
                (''date'', [Stamp 2015 1 1, Stamp 2015 1 2]),
                (''T2M'', [Number ''12.5'', Number ''13.1''])]),
         folders = [''out''],
         requested = map fst demo_requests,
         diagnostics = [], peak_workers = 2\<rparr>"
  have m: "makedirs demo_env (output_folder demo_options) demo_world
      = (Inr (), demo_world\<lparr>folders := [''out'']\<rparr>)"
    by (simp add: makedirs_def demo_env_def demo_world_def demo_options_def)
  have k: "Pool (capped_processes (processes demo_options)) = Inr 5"
    by (simp add: Pool_def capped_processes_def demo_options_def)
  have r: "run_pool demo_env 5 ?sched demo_requests (demo_world\<lparr>folders := [''out'']\<rparr>) = (?outs, ?w2)"
    by (simp add: run_pool_def collect_result_def dispatch_def complete_def worker_defs demo_defs
          demo_requests_def demo_info_def demo_world_def)
  have c: "collect_outcomes demo_env ?sched demo_locations demo_options demo_world
      = (Inr (demo_requests, ?outs), ?w2)"
    unfolding collect_outcomes_def
    by (simp only: demo_valid m demo_plan k r option.case sum.case prod.case)
  have "reduce_results ?outs demo_options ?w2 = (Inr (Results ?outs), ?w2)"
    by (simp add: reduce_results_def success_column_def demo_options_def)
  then show ?thesis using c by (simp add: download_nasa_power_data_def)
qed

text \<open>
  A table without rows passes the validation and plans no job; line 243 then asks the
  column-less table of results for its column success.
\<close>

lemma empty_table_raises:
  "fst (download_nasa_power_data demo_env []
          (demo_locations\<lparr>index := [], cols := [(''latitude'', []), (''longitude'', [])]\<rparr>)
          demo_options demo_world)
     = Inl (KeyError ''success'')"
  by (simp add: download_nasa_power_data_def collect_outcomes_def pool_defs planner_defs
        reduce_results_def success_column_def
        demo_locations_def demo_options_def demo_env_def demo_world_def)

end
